theory Spec2Isabelle
  imports Main
begin

section \<open>Authentication and token lifecycle of the CodeLock extension\<close>

text \<open>
  A shallow embedding of class \<^verbatim>\<open>AuthManager\<close> of \<^verbatim>\<open>src/auth/authManager.ts\<close>.
  An asynchronous method becomes a function that takes the state of the world and returns
  its result together with the new state; a thrown exception or a rejected promise is the
  left injection of the result. JavaScript numbers are modelled as integers (epoch
  milliseconds and whole seconds), strings as \<^typ>\<open>string\<close>.
\<close>

subsection \<open>The credential\<close>

text \<open>\<^verbatim>\<open>export interface AuthToken\<close>, lines 5 to 10 of the source.\<close>

record AuthToken =
  accessToken :: string
  refreshToken :: string
  expiresAt :: int
  userId :: string

subsection \<open>JSON text of a token\<close>

text \<open>
  \<^verbatim>\<open>JSON.stringify(token)\<close> writes the four members in the order of the object literal,
  the strings quoted as QuoteJSONString of ECMA-262 does (two-character escapes for
  backspace, tab, line feed, form feed, carriage return, the double quote and the backslash,
  the six-character hexadecimal escape for every other control character), the number in
  decimal, as JavaScript prints an integer below \<open>10\<^sup>2\<^sup>1\<close>.
\<close>

definition dquote :: char where
  "dquote = CHR 0x22"

definition backslash :: char where
  "backslash = CHR 0x5C"

definition hexdigit :: "nat \<Rightarrow> char" where
  "hexdigit n = (if n < 10 then char_of (48 + n) else char_of (87 + n))"

definition QuoteJSONChar :: "char \<Rightarrow> string" where
  "QuoteJSONChar c =
     (if c = CHR 0x08 then [backslash, CHR ''b'']
      else if c = CHR 0x09 then [backslash, CHR ''t'']
      else if c = CHR 0x0A then [backslash, CHR ''n'']
      else if c = CHR 0x0C then [backslash, CHR ''f'']
      else if c = CHR 0x0D then [backslash, CHR ''r'']
      else if c = dquote then [backslash, dquote]
      else if c = backslash then [backslash, backslash]
      else if (of_char c :: nat) < 32
        then [backslash, CHR ''u'', CHR ''0'', CHR ''0'',
              hexdigit (of_char c div 16), hexdigit (of_char c mod 16)]
      else [c])"

definition QuoteJSONString :: "string \<Rightarrow> string" where
  "QuoteJSONString s = dquote # concat (map QuoteJSONChar s) @ [dquote]"

function NumberToString_nat :: "nat \<Rightarrow> string" where
  "NumberToString_nat n =
     (if n < 10 then [char_of (48 + n)]
      else NumberToString_nat (n div 10) @ [char_of (48 + n mod 10)])"
  by pat_completeness auto
termination
  by (relation "measure id") auto

declare NumberToString_nat.simps [simp del]

definition NumberToString :: "int \<Rightarrow> string" where
  "NumberToString i =
     (if i < 0 then CHR ''-'' # NumberToString_nat (nat (- i)) else NumberToString_nat (nat i))"

definition member_prefix :: "string \<Rightarrow> string \<Rightarrow> string" where
  "member_prefix sep k = sep @ QuoteJSONString k @ '':''"

definition JSON_stringify :: "AuthToken \<Rightarrow> string" where
  "JSON_stringify t =
     member_prefix ''{'' ''accessToken'' @ QuoteJSONString (accessToken t)
     @ member_prefix '','' ''refreshToken'' @ QuoteJSONString (refreshToken t)
     @ member_prefix '','' ''expiresAt'' @ NumberToString (expiresAt t)
     @ member_prefix '','' ''userId'' @ QuoteJSONString (userId t)
     @ ''}''"

text \<open>
  \<^verbatim>\<open>JSON.parse\<close> is modelled on the texts of this shape, with every escape that JSON
  allows inside a string; a text of another shape is a \<^verbatim>\<open>SyntaxError\<close> here. The two
  backends are written by \<^verbatim>\<open>storeToken\<close> only.
\<close>

definition hexval :: "char \<Rightarrow> nat option" where
  "hexval c =
     (let k = (of_char c :: nat) in
      if 48 \<le> k \<and> k \<le> 57 then Some (k - 48)
      else if 97 \<le> k \<and> k \<le> 102 then Some (k - 87)
      else if 65 \<le> k \<and> k \<le> 70 then Some (k - 55)
      else None)"

definition hex4 :: "char \<Rightarrow> char \<Rightarrow> char \<Rightarrow> char \<Rightarrow> nat option" where
  "hex4 a b c d =
     (case (hexval a, hexval b, hexval c, hexval d) of
        (Some x, Some y, Some z, Some w) \<Rightarrow> Some (((x * 16 + y) * 16 + z) * 16 + w)
      | _ \<Rightarrow> None)"

definition consc :: "char \<Rightarrow> (string \<times> string) option \<Rightarrow> (string \<times> string) option" where
  "consc c r = map_option (\<lambda>(s, rest). (c # s, rest)) r"

fun read_chars :: "string \<Rightarrow> (string \<times> string) option" where
  "read_chars [] = None"
| "read_chars (c # cs) =
     (if c = dquote then Some ([], cs)
      else if c = backslash then
        (case cs of
           [] \<Rightarrow> None
         | e # ds \<Rightarrow>
             if e = dquote then consc dquote (read_chars ds)
             else if e = backslash then consc backslash (read_chars ds)
             else if e = CHR ''/'' then consc CHR ''/'' (read_chars ds)
             else if e = CHR ''b'' then consc CHR 0x08 (read_chars ds)
             else if e = CHR ''f'' then consc CHR 0x0C (read_chars ds)
             else if e = CHR ''n'' then consc CHR 0x0A (read_chars ds)
             else if e = CHR ''r'' then consc CHR 0x0D (read_chars ds)
             else if e = CHR ''t'' then consc CHR 0x09 (read_chars ds)
             else if e = CHR ''u'' then
               (case ds of
                  h1 # h2 # h3 # h4 # rest \<Rightarrow>
                    (case hex4 h1 h2 h3 h4 of
                       Some n \<Rightarrow> if n < 256 then consc (char_of n) (read_chars rest) else None
                     | None \<Rightarrow> None)
                | _ \<Rightarrow> None)
             else None)
      else if (of_char c :: nat) < 32 then None
      else consc c (read_chars cs))"

definition read_string :: "string \<Rightarrow> (string \<times> string) option" where
  "read_string s = (case s of [] \<Rightarrow> None | c # cs \<Rightarrow> if c = dquote then read_chars cs else None)"

definition is_digit :: "char \<Rightarrow> bool" where
  "is_digit c \<longleftrightarrow> 48 \<le> (of_char c :: nat) \<and> (of_char c :: nat) \<le> 57"

definition read_nat :: "string \<Rightarrow> (nat \<times> string) option" where
  "read_nat s =
     (let ds = takeWhile is_digit s; rest = dropWhile is_digit s in
      if ds = [] then None
      else if 1 < length ds \<and> hd ds = CHR ''0'' then None
      else Some (foldl (\<lambda>a c. 10 * a + (of_char c - 48)) 0 ds, rest))"

definition read_int :: "string \<Rightarrow> (int \<times> string) option" where
  "read_int s =
     (case s of
        [] \<Rightarrow> None
      | c # cs \<Rightarrow>
          if c = CHR ''-'' then map_option (\<lambda>(n, rest). (- int n, rest)) (read_nat cs)
          else map_option (\<lambda>(n, rest). (int n, rest)) (read_nat s))"

definition expect :: "string \<Rightarrow> string \<Rightarrow> string option" where
  "expect p s = (if take (length p) s = p then Some (drop (length p) s) else None)"

definition parse_token :: "string \<Rightarrow> AuthToken option" where
  "parse_token text =
     Option.bind (expect (member_prefix ''{'' ''accessToken'') text) (\<lambda>r1.
     Option.bind (read_string r1) (\<lambda>(a, r2).
     Option.bind (expect (member_prefix '','' ''refreshToken'') r2) (\<lambda>r3.
     Option.bind (read_string r3) (\<lambda>(r, r4).
     Option.bind (expect (member_prefix '','' ''expiresAt'') r4) (\<lambda>r5.
     Option.bind (read_int r5) (\<lambda>(e, r6).
     Option.bind (expect (member_prefix '','' ''userId'') r6) (\<lambda>r7.
     Option.bind (read_string r7) (\<lambda>(u, r8).
     if r8 = ''}''
     then Some \<lparr>accessToken = a, refreshToken = r, expiresAt = e, userId = u\<rparr>
     else None))))))))"

subsection \<open>Thrown values\<close>

text \<open>
  A thrown JavaScript value: the name and the message of the error object.
  \<open>String_of\<close> is the conversion that a template literal applies to it.
\<close>

datatype thrown = Thrown (ename: string) (message: string)

definition new_Error :: "string \<Rightarrow> thrown" where
  "new_Error m = Thrown ''Error'' m"

definition String_of :: "thrown \<Rightarrow> string" where
  "String_of e =
     (if message e = [] then ename e
      else if ename e = [] then message e
      else ename e @ '': '' @ message e)"

definition JSON_parse :: "string \<Rightarrow> thrown + AuthToken" where
  "JSON_parse text =
     (case parse_token text of
        None \<Rightarrow> Inl (Thrown ''SyntaxError'' ''Unexpected token in JSON'')
      | Some t \<Rightarrow> Inr t)"

text \<open>The test \<^verbatim>\<open>if (s)\<close> on a value that is a string, \<^verbatim>\<open>null\<close> or \<^verbatim>\<open>undefined\<close>.\<close>

definition truthy :: "string option \<Rightarrow> bool" where
  "truthy v = (case v of None \<Rightarrow> False | Some s \<Rightarrow> s \<noteq> [])"

subsection \<open>The world outside the class\<close>

text \<open>
  The calls that leave the class: the three operations of \<^verbatim>\<open>keytar\<close> (the primary
  store), the three of \<^verbatim>\<open>context.secrets\<close> (the fallback store),
  \<^verbatim>\<open>vscode.env.openExternal\<close>, and \<^verbatim>\<open>fetch\<close> on the token and the revoke endpoint.
\<close>

datatype call =
    KeytarSetPassword | KeytarGetPassword | KeytarDeletePassword
  | SecretsStore | SecretsGet | SecretsDelete
  | OpenExternal | FetchToken | FetchRevoke

text \<open>
  Modelled from the spec: the type of the body of a token endpoint response, which the
  source reads as an untyped value (\<^verbatim>\<open>const data = await response.json()\<close>). Section 6
  of the specification gives the members \<^verbatim>\<open>access_token\<close>, \<^verbatim>\<open>refresh_token\<close>,
  \<^verbatim>\<open>expires_in\<close> (seconds) and \<^verbatim>\<open>user_id\<close>, the second of which a refresh response may
  omit: it is a \<^typ>\<open>string\<close> in an exchange response and a \<^typ>\<open>string option\<close> in a
  refresh response.
\<close>

record 'r token_response =
  access_token :: string
  refresh_token :: 'r
  expires_in :: int
  user_id :: string

datatype 'a response = Response (ok: bool) (statusText: string) (json: "thrown + 'a")

text \<open>
  The state: the entry of each store under the fixed key, the field \<^verbatim>\<open>currentToken\<close> of
  the \<^verbatim>\<open>AuthManager\<close> object, the clock that \<^verbatim>\<open>Date.now()\<close> reads, and what the
  environment will do: \<open>fault w c\<close> is the exception that call \<open>c\<close> throws (\<open>None\<close>
  when it succeeds), \<open>latency w c\<close> the milliseconds it takes, \<open>exchange_reply\<close> and
  \<open>refresh_reply\<close> the answers of the token endpoint, \<open>uuid\<close> the next result of
  \<^verbatim>\<open>uuidv4()\<close>. The \<open>trace\<close> records every call that was attempted, with the time at
  which it started and the text it carried.
\<close>

type_synonym entry = "call \<times> int \<times> string option"

record world =
  keytar :: "string \<times> string \<Rightarrow> string option"
  secrets :: "string \<Rightarrow> string option"
  currentToken :: "AuthToken option"
  clock :: int
  fault :: "call \<Rightarrow> thrown option"
  latency :: "call \<Rightarrow> nat"
  exchange_reply :: "string token_response response"
  refresh_reply :: "string option token_response response"
  uuid :: string
  apiEndpoint :: string
  trace :: "entry list"

type_synonym 'a async = "world \<Rightarrow> (thrown + 'a) \<times> world"

definition async_return :: "'a \<Rightarrow> 'a async" where
  "async_return v = (\<lambda>w. (Inr v, w))"

definition async_throw :: "thrown \<Rightarrow> 'a async" where
  "async_throw e = (\<lambda>w. (Inl e, w))"

definition await :: "'a async \<Rightarrow> ('a \<Rightarrow> 'b async) \<Rightarrow> 'b async" where
  "await m f = (\<lambda>w. case m w of (Inl e, w1) \<Rightarrow> (Inl e, w1) | (Inr v, w1) \<Rightarrow> f v w1)"

definition try_catch :: "'a async \<Rightarrow> (thrown \<Rightarrow> 'a async) \<Rightarrow> 'a async" where
  "try_catch body handler =
     (\<lambda>w. case body w of (Inl e, w1) \<Rightarrow> handler e w1 | (Inr v, w1) \<Rightarrow> (Inr v, w1))"

text \<open>
  A call is recorded and takes its time whether it succeeds or throws; one that throws has
  no other effect.
\<close>

definition invoke :: "call \<Rightarrow> string option \<Rightarrow> world \<Rightarrow> world" where
  "invoke c payload w =
     w\<lparr>trace := trace w @ [(c, clock w, payload)], clock := clock w + int (latency w c)\<rparr>"

definition external :: "call \<Rightarrow> string option \<Rightarrow> (world \<Rightarrow> 'a \<times> world) \<Rightarrow> 'a async" where
  "external c payload effect =
     (\<lambda>w. let w1 = invoke c payload w in
          case fault w c of
            Some e \<Rightarrow> (Inl e, w1)
          | None \<Rightarrow> (case effect w1 of (v, w2) \<Rightarrow> (Inr v, w2)))"

definition keytar_setPassword :: "string \<Rightarrow> string \<Rightarrow> string \<Rightarrow> unit async" where
  "keytar_setPassword service account password =
     external KeytarSetPassword (Some password)
       (\<lambda>w. ((), w\<lparr>keytar := (keytar w)((service, account) \<mapsto> password)\<rparr>))"

definition keytar_getPassword :: "string \<Rightarrow> string \<Rightarrow> string option async" where
  "keytar_getPassword service account =
     external KeytarGetPassword None (\<lambda>w. (keytar w (service, account), w))"

definition keytar_deletePassword :: "string \<Rightarrow> string \<Rightarrow> bool async" where
  "keytar_deletePassword service account =
     external KeytarDeletePassword None
       (\<lambda>w. (keytar w (service, account) \<noteq> None,
              w\<lparr>keytar := (keytar w)((service, account) := None)\<rparr>))"

definition secrets_store :: "string \<Rightarrow> string \<Rightarrow> unit async" where
  "secrets_store k v =
     external SecretsStore (Some v) (\<lambda>w. ((), w\<lparr>secrets := (secrets w)(k \<mapsto> v)\<rparr>))"

definition secrets_get :: "string \<Rightarrow> string option async" where
  "secrets_get k = external SecretsGet None (\<lambda>w. (secrets w k, w))"

definition secrets_delete :: "string \<Rightarrow> unit async" where
  "secrets_delete k =
     external SecretsDelete None (\<lambda>w. ((), w\<lparr>secrets := (secrets w)(k := None)\<rparr>))"

definition openExternal :: "string \<Rightarrow> bool async" where
  "openExternal url = external OpenExternal (Some url) (\<lambda>w. (True, w))"

definition fetch_exchange :: "string \<Rightarrow> string token_response response async" where
  "fetch_exchange code = external FetchToken (Some code) (\<lambda>w. (exchange_reply w, w))"

definition fetch_refresh :: "string \<Rightarrow> string option token_response response async" where
  "fetch_refresh rt = external FetchToken (Some rt) (\<lambda>w. (refresh_reply w, w))"

definition fetch_revoke :: "string \<Rightarrow> unit async" where
  "fetch_revoke at = external FetchRevoke (Some at) (\<lambda>w. ((), w))"

definition response_json :: "'a response \<Rightarrow> 'a async" where
  "response_json r = (\<lambda>w. (json r, w))"

definition Date_now :: "world \<Rightarrow> int" where
  "Date_now w = clock w"

text \<open>The calls made on the way from one state to a later one, in order.\<close>

definition calls_between :: "world \<Rightarrow> world \<Rightarrow> call list" where
  "calls_between w w' = map fst (drop (length (trace w)) (trace w'))"

definition entries_between :: "world \<Rightarrow> world \<Rightarrow> entry list" where
  "entries_between w w' = drop (length (trace w)) (trace w')"

text \<open>
  The writes among the entries of a trace: the time at which each one started and the text
  it carried, for the primary and the fallback store alike.
\<close>

definition persists :: "entry list \<Rightarrow> (int \<times> string) list" where
  "persists es = [(t, text). (c, t, Some text) \<leftarrow> es, c = KeytarSetPassword \<or> c = SecretsStore]"

text \<open>
  The writes of one \<^verbatim>\<open>storeToken\<close> of a token that was built at time \<open>built\<close> from a
  response with \<^verbatim>\<open>expires_in = ttl\<close>: the primary write starts at once, the fallback write
  when the primary one has failed; each starts before the token expires exactly when fewer
  than \<open>ttl * 1000\<close> milliseconds have passed since the token was built.
\<close>

definition persisted_with ::
  "world \<Rightarrow> int \<Rightarrow> int \<Rightarrow> AuthToken \<Rightarrow> (int \<times> string) list \<Rightarrow> bool" where
  "persisted_with w built ttl new ps \<longleftrightarrow>
     expiresAt new = built + ttl * 1000
     \<and> ps = (built, JSON_stringify new)
            # (if fault w KeytarSetPassword = None then []
               else [(built + int (latency w KeytarSetPassword), JSON_stringify new)])
     \<and> list_all (\<lambda>(t, text). (t < expiresAt new) = (t - built < ttl * 1000)) ps"

subsection \<open>The methods of AuthManager\<close>

definition SERVICE_NAME :: string where
  "SERVICE_NAME = ''codelock-vscode''"

definition TOKEN_KEY :: string where
  "TOKEN_KEY = ''auth-token''"

text \<open>\<^verbatim>\<open>storeToken\<close>, lines 246 to 258.\<close>

definition storeToken :: "AuthToken \<Rightarrow> unit async" where
  "storeToken token =
     try_catch
       (keytar_setPassword SERVICE_NAME TOKEN_KEY (JSON_stringify token))
       (\<lambda>error. secrets_store TOKEN_KEY (JSON_stringify token))"

text \<open>\<^verbatim>\<open>loadToken\<close>, lines 260 to 283: one \<^verbatim>\<open>try\<close> around both reads.\<close>

definition loadToken :: "AuthToken option async" where
  "loadToken =
     try_catch
       (await (keytar_getPassword SERVICE_NAME TOKEN_KEY) (\<lambda>tokenStr.
          if truthy tokenStr
          then (\<lambda>w. (map_sum id Some (JSON_parse (the tokenStr)), w))
          else await (secrets_get TOKEN_KEY) (\<lambda>fallbackTokenStr.
            if truthy fallbackTokenStr
            then (\<lambda>w. (map_sum id Some (JSON_parse (the fallbackTokenStr)), w))
            else async_return None)))
       (\<lambda>error. async_return None)"

text \<open>\<^verbatim>\<open>clearToken\<close>, lines 285 to 297: one \<^verbatim>\<open>try\<close> for each store.\<close>

definition clearToken :: "unit async" where
  "clearToken =
     await (try_catch
              (await (keytar_deletePassword SERVICE_NAME TOKEN_KEY) (\<lambda>_. async_return ()))
              (\<lambda>error. async_return ())) (\<lambda>_.
     try_catch (secrets_delete TOKEN_KEY) (\<lambda>error. async_return ()))"

text \<open>\<^verbatim>\<open>exchangeCodeForToken\<close>, lines 169 to 198.\<close>

definition exchangeCodeForToken :: "string \<Rightarrow> AuthToken async" where
  "exchangeCodeForToken code =
     await (fetch_exchange code) (\<lambda>response.
       if \<not> ok response
       then async_throw (new_Error (''Token exchange failed: '' @ statusText response))
       else await (response_json response) (\<lambda>data w.
         (Inr \<lparr>accessToken = access_token data,
               refreshToken = refresh_token data,
               expiresAt = Date_now w + expires_in data * 1000,
               userId = user_id data\<rparr>, w)))"

text \<open>
  \<^verbatim>\<open>refreshToken\<close>, lines 200 to 228 (the name of the method is that of a field of
  \<open>AuthToken\<close>, hence the suffix). \<^verbatim>\<open>data.refresh_token || refreshToken\<close> takes the old
  value when the new one is absent or the empty string.
\<close>

definition refreshToken_call :: "string \<Rightarrow> AuthToken async" where
  "refreshToken_call rt =
     await (fetch_refresh rt) (\<lambda>response.
       if \<not> ok response
       then async_throw (new_Error (''Token refresh failed: '' @ statusText response))
       else await (response_json response) (\<lambda>data w.
         (Inr \<lparr>accessToken = access_token data,
               refreshToken = (if truthy (refresh_token data) then the (refresh_token data) else rt),
               expiresAt = Date_now w + expires_in data * 1000,
               userId = user_id data\<rparr>, w)))"

text \<open>\<^verbatim>\<open>revokeToken\<close>, lines 230 to 244: the response is not looked at.\<close>

definition revokeToken :: "string \<Rightarrow> unit async" where
  "revokeToken at = fetch_revoke at"

text \<open>
  \<^verbatim>\<open>getValidToken\<close>, lines 66 to 89. \<open>ensure_loaded\<close> is its first statement, which
  fills the cache from the stores when it is empty.
\<close>

definition ensure_loaded :: "unit async" where
  "ensure_loaded =
     (\<lambda>w. if currentToken w = None
          then await loadToken (\<lambda>t w1. (Inr (), w1\<lparr>currentToken := t\<rparr>)) w
          else (Inr (), w))"

definition getValidToken :: "string option async" where
  "getValidToken =
     await ensure_loaded (\<lambda>_ w.
       case currentToken w of
         None \<Rightarrow> (Inr None, w)
       | Some tok \<Rightarrow>
           if Date_now w \<ge> expiresAt tok
           then try_catch
                  (await (refreshToken_call (refreshToken tok)) (\<lambda>new w1.
                     await (storeToken new) (\<lambda>_. async_return (Some (accessToken new)))
                       (w1\<lparr>currentToken := Some new\<rparr>)))
                  (\<lambda>error. await clearToken (\<lambda>_ w2. (Inr None, w2\<lparr>currentToken := None\<rparr>)))
                  w
           else (Inr (Some (accessToken tok)), w))"

definition isAuthenticated :: "world \<Rightarrow> bool" where
  "isAuthenticated w \<longleftrightarrow> currentToken w \<noteq> None"

text \<open>\<^verbatim>\<open>logout\<close>, lines 51 to 64.\<close>

definition logout :: "unit async" where
  "logout =
     await (try_catch
              (\<lambda>w. case currentToken w of
                     Some tok \<Rightarrow> revokeToken (accessToken tok) w
                   | None \<Rightarrow> (Inr (), w))
              (\<lambda>error. async_return ())) (\<lambda>_.
     await clearToken (\<lambda>_ w. (Inr (), w\<lparr>currentToken := None\<rparr>)))"

subsection \<open>The login attempt\<close>

text \<open>
  The query of the redirect: the results of \<^verbatim>\<open>query.get\<close> for \<^verbatim>\<open>code\<close>,
  \<^verbatim>\<open>state\<close> and \<^verbatim>\<open>error\<close>.
\<close>

datatype uri = Uri (query_code: "string option") (query_state: "string option")
  (query_error: "string option")

text \<open>
  What can happen while \<^verbatim>\<open>waitForAuthCallback\<close> is pending: the redirect is delivered
  to the registered handler, the user cancels the progress notification, the timer of
  300000 ms fires, or the token exchange that \<^verbatim>\<open>handleUri\<close> awaits comes back.
\<close>

datatype signal = UriDelivered uri | CancellationRequested | TimerElapsed | ExchangeDone

text \<open>
  The promise settles once: \<^verbatim>\<open>resolve\<close> and \<^verbatim>\<open>reject\<close> have no effect on a settled
  promise. A rejection carries the place in the source that raised it, named by the error
  kinds of the specification.
\<close>

datatype failure_kind = Timeout | ProviderError | InvalidState | MissingCode | ExchangeFailed

datatype settlement = Resolved "AuthToken option" | Rejected failure_kind thrown

record wait =
  settled :: "settlement option"
  timer_pending :: bool
  handler_registered :: bool
  exchanging :: "string option"

definition initial_wait :: wait where
  "initial_wait =
     \<lparr>settled = None, timer_pending = True, handler_registered = True, exchanging = None\<rparr>"

definition settle :: "settlement \<Rightarrow> wait \<Rightarrow> wait" where
  "settle out p = (if settled p = None then p\<lparr>settled := Some out\<rparr> else p)"

definition clearTimeout :: "wait \<Rightarrow> wait" where
  "clearTimeout p = p\<lparr>timer_pending := False\<rparr>"

definition dispose :: "wait \<Rightarrow> wait" where
  "dispose p = p\<lparr>handler_registered := False\<rparr>"

text \<open>\<^verbatim>\<open>handleUri\<close>, lines 127 to 158, up to the \<^verbatim>\<open>await\<close> of the exchange.\<close>

definition handleUri :: "string \<Rightarrow> uri \<Rightarrow> wait \<Rightarrow> wait" where
  "handleUri sessionId u p =
     (let p1 = dispose (clearTimeout p) in
      if truthy (query_error u)
        then settle (Rejected ProviderError
               (new_Error (''Authentication error: '' @ the (query_error u)))) p1
      else if query_state u \<noteq> Some sessionId
        then settle (Rejected InvalidState (new_Error ''Invalid authentication state'')) p1
      else if \<not> truthy (query_code u)
        then settle (Rejected MissingCode (new_Error ''No authorization code received'')) p1
      else p1\<lparr>exchanging := Some (the (query_code u))\<rparr>)"

text \<open>
  One signal. A redirect reaches \<^verbatim>\<open>handleUri\<close> only while the handler is registered,
  and the timer fires only while it has not been cleared.
\<close>

definition step :: "string \<Rightarrow> signal \<Rightarrow> wait \<times> world \<Rightarrow> wait \<times> world" where
  "step sessionId s pw =
     (case pw of (p, w) \<Rightarrow>
        (case s of
           TimerElapsed \<Rightarrow>
             if timer_pending p
             then (settle (Rejected Timeout (new_Error ''Authentication timeout''))
                     (dispose (p\<lparr>timer_pending := False\<rparr>)), w)
             else (p, w)
         | UriDelivered u \<Rightarrow>
             if handler_registered p then (handleUri sessionId u p, w) else (p, w)
         | ExchangeDone \<Rightarrow>
             (case exchanging p of
                None \<Rightarrow> (p, w)
              | Some code \<Rightarrow>
                  (case exchangeCodeForToken code w of
                     (Inr token, w1) \<Rightarrow>
                       (settle (Resolved (Some token)) (p\<lparr>exchanging := None\<rparr>), w1)
                   | (Inl err, w1) \<Rightarrow>
                       (settle (Rejected ExchangeFailed err) (p\<lparr>exchanging := None\<rparr>), w1)))
         | CancellationRequested \<Rightarrow>
             (settle (Resolved None) (dispose (clearTimeout p)), w)))"

text \<open>
  What holds of every state that the signals can reach: a settled promise has neither timer
  nor handler left, an exchange is awaited only after both are gone, and a pending promise
  still has its timer or an exchange under way.
\<close>

definition wait_inv :: "wait \<Rightarrow> bool" where
  "wait_inv p \<longleftrightarrow>
     (settled p \<noteq> None \<longrightarrow> \<not> timer_pending p \<and> \<not> handler_registered p)
     \<and> (exchanging p \<noteq> None \<longrightarrow> \<not> timer_pending p \<and> \<not> handler_registered p)
     \<and> (settled p = None \<longrightarrow> timer_pending p \<or> exchanging p \<noteq> None)"

fun deliver :: "string \<Rightarrow> signal list \<Rightarrow> wait \<times> world \<Rightarrow> wait \<times> world" where
  "deliver sessionId [] pw = pw"
| "deliver sessionId (s # ss) pw = deliver sessionId ss (step sessionId s pw)"

text \<open>
  \<^verbatim>\<open>waitForAuthCallback\<close>, lines 119 to 167: the caller continues at the first signal
  that settles the promise. The result is \<open>None\<close> when no signal of the list settles it.
\<close>

fun waitForAuthCallback ::
  "string \<Rightarrow> signal list \<Rightarrow> wait \<times> world \<Rightarrow> settlement option \<times> world" where
  "waitForAuthCallback sessionId [] pw = (settled (fst pw), snd pw)"
| "waitForAuthCallback sessionId (s # ss) pw =
     (if settled (fst pw) \<noteq> None then (settled (fst pw), snd pw)
      else waitForAuthCallback sessionId ss (step sessionId s pw))"

text \<open>
  \<^verbatim>\<open>buildAuthUrl\<close>, lines 104 to 117; the session identifier is a UUID, which
  \<^verbatim>\<open>URLSearchParams\<close> leaves as it is.
\<close>

definition buildAuthUrl :: "string \<Rightarrow> world \<Rightarrow> string" where
  "buildAuthUrl sessionId w =
     apiEndpoint w @ ''/auth/authorize?''
       @ ''client_id=codelock-vscode&response_type=code&scope=read+write&state='' @ sessionId
       @ ''&redirect_uri=vscode%3A%2F%2Fcodelock-ai.codelock%2Fauth-callback''"

text \<open>
  \<^verbatim>\<open>login\<close>, lines 22 to 49. The outer \<^verbatim>\<open>catch\<close> wraps whatever was thrown; the
  result is \<open>None\<close> when the promise of \<^verbatim>\<open>waitForAuthCallback\<close> never settles.
\<close>

definition login_failed :: "thrown \<Rightarrow> thrown" where
  "login_failed error = new_Error (''Login failed: '' @ String_of error)"

definition login :: "signal list \<Rightarrow> world \<Rightarrow> (thrown + unit) option \<times> world" where
  "login signals w =
     (let sessionId = uuid w; authUrl = buildAuthUrl sessionId w in
      case openExternal authUrl w of
        (Inl error, w1) \<Rightarrow> (Some (Inl (login_failed error)), w1)
      | (Inr _, w1) \<Rightarrow>
          (case waitForAuthCallback sessionId signals (initial_wait, w1) of
             (None, w2) \<Rightarrow> (None, w2)
           | (Some (Rejected k error), w2) \<Rightarrow> (Some (Inl (login_failed error)), w2)
           | (Some (Resolved None), w2) \<Rightarrow>
               (Some (Inl (login_failed (new_Error ''Authentication was cancelled or failed''))), w2)
           | (Some (Resolved (Some token)), w2) \<Rightarrow>
               (case storeToken token w2 of
                  (Inl error, w3) \<Rightarrow> (Some (Inl (login_failed error)), w3)
                | (Inr _, w3) \<Rightarrow> (Some (Inr ()), w3\<lparr>currentToken := Some token\<rparr>))))"

subsection \<open>Concrete states\<close>

text \<open>
  A fresh installation whose environment works: both stores empty, nobody logged in, the
  token endpoint answering as in the scenarios of the specification.
\<close>

definition w0 :: world where
  "w0 = \<lparr>keytar = Map.empty, secrets = Map.empty, currentToken = None, clock = 1700000000000,
         fault = (\<lambda>_. None), latency = (\<lambda>_. 0),
         exchange_reply = Response True ''OK''
            (Inr \<lparr>access_token = ''AT1'', refresh_token = ''RT1'', expires_in = 3600,
                  user_id = ''u1''\<rparr>),
         refresh_reply = Response True ''OK''
            (Inr \<lparr>access_token = ''AT2'', refresh_token = None, expires_in = 60,
                  user_id = ''u1''\<rparr>),
         uuid = ''abc123'', apiEndpoint = ''https://api.codelock.ai'', trace = []\<rparr>"

definition token_A :: AuthToken where
  "token_A = \<lparr>accessToken = ''AT1'', refreshToken = ''RT1'', expiresAt = 1700003600000,
               userId = ''u1''\<rparr>"

definition network_down :: "call \<Rightarrow> thrown option" where
  "network_down c =
     (if c = FetchToken \<or> c = FetchRevoke then Some (Thrown ''TypeError'' ''fetch failed'')
      else None)"

text \<open>The token stored in both stores, the clock at its expiry, the network down.\<close>

definition w_expired :: world where
  "w_expired = w0\<lparr>keytar := [(SERVICE_NAME, TOKEN_KEY) \<mapsto> JSON_stringify token_A],
                  secrets := [TOKEN_KEY \<mapsto> JSON_stringify token_A],
                  clock := 1700003600000, fault := network_down\<rparr>"

text \<open>
  The same state where the refresh request fails and the primary store refuses to delete
  while it can still be read.
\<close>

definition refresh_and_delete_fail :: "call \<Rightarrow> thrown option" where
  "refresh_and_delete_fail c =
     (if c = FetchToken then Some (Thrown ''TypeError'' ''fetch failed'')
      else if c = KeytarDeletePassword then Some (new_Error ''keychain is locked'')
      else None)"

definition w_delete_fails :: world where
  "w_delete_fails = w_expired\<lparr>fault := refresh_and_delete_fail\<rparr>"

definition token_B :: AuthToken where
  "token_B = \<lparr>accessToken = ''AT2'', refreshToken = ''RT2'', expiresAt = 1700007200000,
               userId = ''u1''\<rparr>"

text \<open>The primary store throws on every operation.\<close>

definition keytar_unavailable :: "call \<Rightarrow> thrown option" where
  "keytar_unavailable c =
     (if c = KeytarSetPassword \<or> c = KeytarGetPassword \<or> c = KeytarDeletePassword
      then Some (new_Error ''keytar is not available'') else None)"

text \<open>The primary store can be read and cannot be written.\<close>

definition keytar_read_only :: "call \<Rightarrow> thrown option" where
  "keytar_read_only c =
     (if c = KeytarSetPassword then Some (new_Error ''keychain is locked'') else None)"

definition w_keytar_down :: world where
  "w_keytar_down = w0\<lparr>secrets := [TOKEN_KEY \<mapsto> JSON_stringify token_A],
                      fault := keytar_unavailable\<rparr>"

definition w_locked :: world where
  "w_locked = w0\<lparr>fault := keytar_read_only\<rparr>"

definition w_stale :: world where
  "w_stale = w0\<lparr>keytar := [(SERVICE_NAME, TOKEN_KEY) \<mapsto> JSON_stringify token_A],
                fault := keytar_read_only\<rparr>"

definition w_stale_B :: world where
  "w_stale_B = w0\<lparr>keytar := [(SERVICE_NAME, TOKEN_KEY) \<mapsto> JSON_stringify token_B],
                  fault := keytar_read_only\<rparr>"

text \<open>The cached token has just expired; three answers of the token endpoint.\<close>

definition w_cached :: world where
  "w_cached = w0\<lparr>currentToken := Some token_A, clock := 1700003600000\<rparr>"

definition w_empty_rt :: world where
  "w_empty_rt = w0\<lparr>currentToken := Some token_A, clock := 1700003600000,
      refresh_reply := Response True ''OK''
        (Inr \<lparr>access_token = ''AT2'', refresh_token = Some [], expires_in = 60,
              user_id = ''u1''\<rparr>)\<rparr>"

definition w_zero_ttl :: world where
  "w_zero_ttl = w0\<lparr>currentToken := Some token_A, clock := 1700003600000,
      refresh_reply := Response True ''OK''
        (Inr \<lparr>access_token = ''AT2'', refresh_token = Some ''RT2'', expires_in = 0,
              user_id = ''u1''\<rparr>)\<rparr>"

text \<open>
  Three redirects for the session \<^verbatim>\<open>abc123\<close>: the expected one, one with another state,
  and one with another state that also carries an error of the provider.
\<close>

definition uri_ok :: uri where
  "uri_ok = Uri (Some ''CODE1'') (Some ''abc123'') None"

definition uri_forged :: uri where
  "uri_forged = Uri (Some ''CODE1'') (Some ''xyz'') None"

definition uri_denied :: uri where
  "uri_denied = Uri (Some ''CODE1'') (Some ''xyz'') (Some ''access_denied'')"

section \<open>Lemmas\<close>

subsection \<open>Parsing what was written\<close>

lemma hexval_hexdigit: "n < 16 \<Longrightarrow> hexval (hexdigit n) = Some n"
  by (auto simp: hexval_def hexdigit_def Let_def)

lemma hex4_low: "n < 32 \<Longrightarrow> hex4 CHR ''0'' CHR ''0'' (hexdigit (n div 16)) (hexdigit (n mod 16)) = Some n"
proof -
  assume n: "n < 32"
  then have d: "n div 16 < 16" by simp
  have m: "n mod 16 < 16" by simp
  have z: "hexval CHR ''0'' = Some 0" by (simp add: hexval_def)
  show ?thesis
    by (simp add: hex4_def z hexval_hexdigit [OF d] hexval_hexdigit [OF m])
qed

lemma read_chars_QuoteJSONChar:
  "read_chars (QuoteJSONChar c @ rest) = consc c (read_chars rest)"
proof -
  consider (ctl) "(of_char c :: nat) < 32" | (pr) "\<not> (of_char c :: nat) < 32" by blast
  then show ?thesis
  proof cases
    case ctl
    have cc: "char_of (of_char c :: nat) = c" by simp
    show ?thesis
      using ctl hex4_low [OF ctl] cc
      by (auto simp: QuoteJSONChar_def dquote_def backslash_def)
  next
    case pr
    then show ?thesis
      by (auto simp: QuoteJSONChar_def dquote_def backslash_def)
  qed
qed

lemma read_chars_quoted:
  "read_chars (concat (map QuoteJSONChar s) @ dquote # rest) = Some (s, rest)"
  by (induction s) (simp_all add: read_chars_QuoteJSONChar consc_def)

lemma read_string_QuoteJSONString:
  "read_string (QuoteJSONString s @ rest) = Some (s, rest)"
  by (simp add: read_string_def QuoteJSONString_def read_chars_quoted)

lemma expect_append: "expect p (p @ s) = Some s"
  by (simp add: expect_def)

lemma digit_char: "d < 10 \<Longrightarrow> is_digit (char_of (48 + d)) \<and> (of_char (char_of (48 + d)) :: nat) - 48 = d"
  by (simp add: is_digit_def)

lemma NumberToString_nat_digits: "\<forall>c \<in> set (NumberToString_nat n). is_digit c"
proof (induction n rule: NumberToString_nat.induct)
  case (1 n)
  show ?case
  proof (cases "n < 10")
    case True
    then show ?thesis using digit_char [of n] by (subst NumberToString_nat.simps) simp
  next
    case False
    have "n mod 10 < 10" by simp
    from digit_char [OF this] 1 False show ?thesis
      by (subst NumberToString_nat.simps) auto
  qed
qed

lemma NumberToString_nat_nonempty: "NumberToString_nat n \<noteq> []"
  by (subst NumberToString_nat.simps) simp

lemma NumberToString_nat_value:
  "foldl (\<lambda>a c. 10 * a + (of_char c - 48)) 0 (NumberToString_nat n) = n"
proof (induction n rule: NumberToString_nat.induct)
  case (1 n)
  show ?case
  proof (cases "n < 10")
    case True
    then show ?thesis by (subst NumberToString_nat.simps) simp
  next
    case False
    have "n mod 10 < 10" by simp
    then have "(of_char (char_of (48 + n mod 10)) :: nat) - 48 = n mod 10"
      using digit_char by blast
    with 1 False show ?thesis
      by (subst NumberToString_nat.simps) simp
  qed
qed

lemma NumberToString_nat_hd:
  "1 < length (NumberToString_nat n) \<Longrightarrow> hd (NumberToString_nat n) \<noteq> CHR ''0''"
proof (induction n rule: NumberToString_nat.induct)
  case (1 n)
  show ?case
  proof (cases "n < 10")
    case True
    with 1(2) show ?thesis by (subst (asm) NumberToString_nat.simps) simp
  next
    case False
    note big = False
    show ?thesis
    proof (cases "n div 10 < 10")
      case True
      have nz: "n div 10 \<noteq> 0" using big by simp
      have "NumberToString_nat (n div 10) = [char_of (48 + n div 10)]"
        using True by (subst NumberToString_nat.simps) simp
      then have "hd (NumberToString_nat n) = char_of (48 + n div 10)"
        using big by (subst NumberToString_nat.simps) simp
      moreover have "char_of (48 + n div 10) \<noteq> CHR ''0''"
      proof
        assume "char_of (48 + n div 10) = CHR ''0''"
        then have "(of_char (char_of (48 + n div 10)) :: nat) = of_char CHR ''0''" by simp
        then show False using True nz by simp
      qed
      ultimately show ?thesis by simp
    next
      case False
      then have "1 < length (NumberToString_nat (n div 10))"
        by (subst NumberToString_nat.simps) (simp add: NumberToString_nat_nonempty Suc_lessI)
      with 1(1) big have "hd (NumberToString_nat (n div 10)) \<noteq> CHR ''0''" by simp
      then show ?thesis
        using big by (subst NumberToString_nat.simps) (simp add: NumberToString_nat_nonempty)
    qed
  qed
qed

lemma read_nat_NumberToString_nat:
  assumes "rest = [] \<or> \<not> is_digit (hd rest)"
  shows "read_nat (NumberToString_nat n @ rest) = Some (n, rest)"
proof -
  have tw: "takeWhile is_digit (NumberToString_nat n @ rest) = NumberToString_nat n"
    using assms NumberToString_nat_digits [of n]
    by (cases rest) (simp_all add: takeWhile_append2 takeWhile_eq_all_conv [THEN iffD2])
  have dw: "dropWhile is_digit (NumberToString_nat n @ rest) = rest"
    using assms NumberToString_nat_digits [of n]
    by (cases rest) (simp_all add: dropWhile_append2)
  show ?thesis
    using NumberToString_nat_hd [of n]
    by (auto simp: read_nat_def tw dw Let_def NumberToString_nat_nonempty NumberToString_nat_value)
qed

lemma minus_not_digit: "\<not> is_digit CHR ''-''"
  by (simp add: is_digit_def)

lemma NumberToString_nat_hd_digit: "is_digit (hd (NumberToString_nat n))"
  using NumberToString_nat_digits [of n] NumberToString_nat_nonempty [of n]
  by (cases "NumberToString_nat n") auto

lemma read_int_NumberToString:
  assumes "rest = [] \<or> \<not> is_digit (hd rest)"
  shows "read_int (NumberToString i @ rest) = Some (i, rest)"
proof (cases "i < 0")
  case True
  then show ?thesis
    by (simp add: read_int_def NumberToString_def read_nat_NumberToString_nat [OF assms])
next
  case False
  obtain c cs where cs: "NumberToString_nat (nat i) = c # cs"
    using NumberToString_nat_nonempty [of "nat i"] by (cases "NumberToString_nat (nat i)") auto
  have "is_digit c" using NumberToString_nat_hd_digit [of "nat i"] cs by simp
  then have "c \<noteq> CHR ''-''" using minus_not_digit by auto
  moreover have "read_nat (c # cs @ rest) = Some (nat i, rest)"
    using read_nat_NumberToString_nat [OF assms, of "nat i"] cs by simp
  ultimately show ?thesis
    using False by (simp add: read_int_def NumberToString_def cs)
qed

lemma parse_token_JSON_stringify: "parse_token (JSON_stringify t) = Some t"
proof -
  have comma: "\<not> is_digit (hd (member_prefix '','' k @ s))" for k s
    by (simp add: is_digit_def member_prefix_def)
  show ?thesis
    unfolding parse_token_def JSON_stringify_def
    by (simp only: append_assoc expect_append Option.bind.simps read_string_QuoteJSONString
          read_int_NumberToString [OF disjI2 [OF comma]] prod.case) simp
qed

subsection \<open>What each method does\<close>

lemmas async_defs = async_return_def async_throw_def await_def try_catch_def external_def
  invoke_def response_json_def Date_now_def

lemmas backend_defs = keytar_setPassword_def keytar_getPassword_def keytar_deletePassword_def
  secrets_store_def secrets_get_def secrets_delete_def

lemma clearToken_result:
  "clearToken w =
     (Inr (),
      w\<lparr>trace := trace w @ [(KeytarDeletePassword, clock w, None),
                             (SecretsDelete, clock w + int (latency w KeytarDeletePassword), None)],
        clock := clock w + int (latency w KeytarDeletePassword) + int (latency w SecretsDelete),
        keytar := (if fault w KeytarDeletePassword = None
                   then (keytar w)((SERVICE_NAME, TOKEN_KEY) := None) else keytar w),
        secrets := (if fault w SecretsDelete = None
                    then (secrets w)(TOKEN_KEY := None) else secrets w)\<rparr>)"
  by (auto simp: clearToken_def async_defs backend_defs Let_def split: option.splits)

lemma storeToken_result:
  "storeToken tok w =
     (let text = JSON_stringify tok;
          w1 = w\<lparr>trace := trace w @ [(KeytarSetPassword, clock w, Some text)],
                 clock := clock w + int (latency w KeytarSetPassword)\<rparr>
      in case fault w KeytarSetPassword of
           None \<Rightarrow> (Inr (), w1\<lparr>keytar := (keytar w)((SERVICE_NAME, TOKEN_KEY) \<mapsto> text)\<rparr>)
         | Some e \<Rightarrow>
             (let w2 = w1\<lparr>trace := trace w1 @ [(SecretsStore, clock w1, Some text)],
                          clock := clock w1 + int (latency w SecretsStore)\<rparr>
              in case fault w SecretsStore of
                   None \<Rightarrow> (Inr (), w2\<lparr>secrets := (secrets w)(TOKEN_KEY \<mapsto> text)\<rparr>)
                 | Some e2 \<Rightarrow> (Inl e2, w2)))"
  by (auto simp: storeToken_def async_defs backend_defs Let_def split: option.splits)

lemma loadToken_result:
  "loadToken w =
     (let w1 = w\<lparr>trace := trace w @ [(KeytarGetPassword, clock w, None)],
                 clock := clock w + int (latency w KeytarGetPassword)\<rparr>
      in case fault w KeytarGetPassword of
           Some e \<Rightarrow> (Inr None, w1)
         | None \<Rightarrow>
             if truthy (keytar w (SERVICE_NAME, TOKEN_KEY))
             then (Inr (parse_token (the (keytar w (SERVICE_NAME, TOKEN_KEY)))), w1)
             else
               (let w2 = w1\<lparr>trace := trace w1 @ [(SecretsGet, clock w1, None)],
                            clock := clock w1 + int (latency w SecretsGet)\<rparr>
                in case fault w SecretsGet of
                     Some e \<Rightarrow> (Inr None, w2)
                   | None \<Rightarrow>
                       if truthy (secrets w TOKEN_KEY)
                       then (Inr (parse_token (the (secrets w TOKEN_KEY))), w2)
                       else (Inr None, w2)))"
  by (auto simp: loadToken_def async_defs backend_defs JSON_parse_def Let_def
        split: option.splits)

lemma loadToken_never_throws: "\<exists>t. fst (loadToken w) = Inr t"
  by (auto simp: loadToken_result Let_def split: option.splits)

lemma refreshToken_call_result:
  "refreshToken_call rt w =
     (let w1 = w\<lparr>trace := trace w @ [(FetchToken, clock w, Some rt)],
                 clock := clock w + int (latency w FetchToken)\<rparr>
      in case fault w FetchToken of
           Some e \<Rightarrow> (Inl e, w1)
         | None \<Rightarrow>
             if \<not> ok (refresh_reply w)
             then (Inl (new_Error (''Token refresh failed: '' @ statusText (refresh_reply w))), w1)
             else (case json (refresh_reply w) of
                     Inl e \<Rightarrow> (Inl e, w1)
                   | Inr data \<Rightarrow>
                       (Inr \<lparr>accessToken = access_token data,
                             refreshToken = (if truthy (refresh_token data)
                                             then the (refresh_token data) else rt),
                             expiresAt = clock w1 + expires_in data * 1000,
                             userId = user_id data\<rparr>, w1)))"
  by (auto simp: refreshToken_call_def fetch_refresh_def async_defs Let_def
        split: option.splits sum.splits)

lemma exchangeCodeForToken_result:
  "exchangeCodeForToken code w =
     (let w1 = w\<lparr>trace := trace w @ [(FetchToken, clock w, Some code)],
                 clock := clock w + int (latency w FetchToken)\<rparr>
      in case fault w FetchToken of
           Some e \<Rightarrow> (Inl e, w1)
         | None \<Rightarrow>
             if \<not> ok (exchange_reply w)
             then (Inl (new_Error (''Token exchange failed: '' @ statusText (exchange_reply w))), w1)
             else (case json (exchange_reply w) of
                     Inl e \<Rightarrow> (Inl e, w1)
                   | Inr data \<Rightarrow>
                       (Inr \<lparr>accessToken = access_token data,
                             refreshToken = refresh_token data,
                             expiresAt = clock w1 + expires_in data * 1000,
                             userId = user_id data\<rparr>, w1)))"
  by (auto simp: exchangeCodeForToken_def fetch_exchange_def async_defs Let_def
        split: option.splits sum.splits)

lemma ensure_loaded_result:
  "ensure_loaded w =
     (Inr (), if currentToken w = None
              then (snd (loadToken w))\<lparr>currentToken := (case fst (loadToken w) of Inr t \<Rightarrow> t | Inl e \<Rightarrow> None)\<rparr>
              else w)"
  using loadToken_never_throws [of w]
  by (auto simp: ensure_loaded_def await_def split: prod.splits sum.splits)

lemma clearToken_never_throws: "fst (clearToken w) = Inr ()"
  by (simp add: clearToken_result)

lemma getValidToken_unfold:
  "getValidToken w =
     (let w1 = snd (ensure_loaded w) in
      case currentToken w1 of
        None \<Rightarrow> (Inr None, w1)
      | Some tok \<Rightarrow>
          if expiresAt tok \<le> clock w1
          then (case refreshToken_call (refreshToken tok) w1 of
                  (Inl e, w2) \<Rightarrow> (Inr None, (snd (clearToken w2))\<lparr>currentToken := None\<rparr>)
                | (Inr new, w2) \<Rightarrow>
                    (case storeToken new (w2\<lparr>currentToken := Some new\<rparr>) of
                       (Inl e, w3) \<Rightarrow> (Inr None, (snd (clearToken w3))\<lparr>currentToken := None\<rparr>)
                     | (Inr u, w3) \<Rightarrow> (Inr (Some (accessToken new)), w3)))
          else (Inr (Some (accessToken tok)), w1))"
proof -
  obtain w1 where w1: "ensure_loaded w = (Inr (), w1)"
    by (simp add: ensure_loaded_result)
  have ct: "\<exists>v'. clearToken v = (Inr (), v')" for v
    using clearToken_never_throws [of v] by (cases "clearToken v") simp
  show ?thesis
  proof (cases "currentToken w1")
    case None
    then show ?thesis
      by (simp add: getValidToken_def await_def w1)
  next
    case (Some tok)
    show ?thesis
    proof (cases "expiresAt tok \<le> clock w1")
      case False
      with Some show ?thesis
        by (simp add: getValidToken_def await_def w1 Date_now_def)
    next
      case True
      obtain r w2 where rc: "refreshToken_call (refreshToken tok) w1 = (r, w2)"
        by (cases "refreshToken_call (refreshToken tok) w1") simp
      show ?thesis
      proof (cases r)
        case (Inl e)
        with Some True rc ct [of w2] show ?thesis
          by (auto simp: getValidToken_def await_def try_catch_def w1 Date_now_def)
      next
        case (Inr new)
        obtain r3 w3 where st: "storeToken new (w2\<lparr>currentToken := Some new\<rparr>) = (r3, w3)"
          by (cases "storeToken new (w2\<lparr>currentToken := Some new\<rparr>)") simp
        show ?thesis
        proof (cases r3)
          case (Inl e3)
          with Some True rc Inr st ct [of w3] show ?thesis
            by (auto simp: getValidToken_def await_def try_catch_def w1 Date_now_def)
        next
          case (Inr u)
          with Some True rc \<open>r = Inr new\<close> st show ?thesis
            by (simp add: getValidToken_def await_def try_catch_def async_return_def w1 Date_now_def)
        qed
      qed
    qed
  qed
qed

subsection \<open>What getValidToken leaves alone\<close>

lemma JSON_stringify_truthy: "truthy (Some (JSON_stringify t))"
  by (simp add: truthy_def JSON_stringify_def member_prefix_def)

lemma loadToken_frame:
  "fault (snd (loadToken w)) = fault w \<and> latency (snd (loadToken w)) = latency w
   \<and> keytar (snd (loadToken w)) = keytar w \<and> secrets (snd (loadToken w)) = secrets w
   \<and> refresh_reply (snd (loadToken w)) = refresh_reply w
   \<and> (\<exists>xs. trace (snd (loadToken w)) = trace w @ xs)"
  by (auto simp: loadToken_result Let_def split: option.splits)

lemma ensure_loaded_frame:
  "fault (snd (ensure_loaded w)) = fault w \<and> latency (snd (ensure_loaded w)) = latency w
   \<and> keytar (snd (ensure_loaded w)) = keytar w \<and> secrets (snd (ensure_loaded w)) = secrets w
   \<and> refresh_reply (snd (ensure_loaded w)) = refresh_reply w
   \<and> (\<exists>xs. trace (snd (ensure_loaded w)) = trace w @ xs)"
  using loadToken_frame [of w] by (auto simp: ensure_loaded_result)

lemma getValidToken_refreshed:
  assumes "currentToken (snd (ensure_loaded w)) = Some tok"
      and "expiresAt tok \<le> Date_now (snd (ensure_loaded w))"
      and "fault w FetchToken = None" and "ok (refresh_reply w)"
      and "json (refresh_reply w) = Inr data"
  defines "w1 \<equiv> snd (ensure_loaded w)"
  defines "w2 \<equiv> w1\<lparr>trace := trace w1 @ [(FetchToken, clock w1, Some (refreshToken tok))],
                     clock := clock w1 + int (latency w FetchToken)\<rparr>"
  defines "new \<equiv> \<lparr>accessToken = access_token data,
                    refreshToken = (if truthy (refresh_token data) then the (refresh_token data)
                                    else refreshToken tok),
                    expiresAt = clock w1 + int (latency w FetchToken) + expires_in data * 1000,
                    userId = user_id data\<rparr>"
  shows "getValidToken w =
           (case storeToken new (w2\<lparr>currentToken := Some new\<rparr>) of
              (Inl e, w3) \<Rightarrow> (Inr None, (snd (clearToken w3))\<lparr>currentToken := None\<rparr>)
            | (Inr u, w3) \<Rightarrow> (Inr (Some (accessToken new)), w3))"
proof -
  have fr: "fault w1 = fault w" "latency w1 = latency w" "refresh_reply w1 = refresh_reply w"
    using ensure_loaded_frame [of w] by (simp_all add: w1_def)
  have rc: "refreshToken_call (refreshToken tok) w1 = (Inr new, w2)"
    using assms(3-5) by (simp add: refreshToken_call_result Let_def fr w2_def new_def)
  show ?thesis
    using assms(1,2) rc
    by (simp add: getValidToken_unfold w1_def [symmetric] Date_now_def)
qed

subsection \<open>The promise of waitForAuthCallback\<close>

lemmas wait_defs = settle_def clearTimeout_def dispose_def handleUri_def

lemma wait_inv_initial: "wait_inv initial_wait"
  by (simp add: wait_inv_def initial_wait_def)

lemma step_cases:
  "step sid (UriDelivered u) (p, w) = (if handler_registered p then handleUri sid u p else p, w)"
  "step sid CancellationRequested (p, w) = (settle (Resolved None) (dispose (clearTimeout p)), w)"
  "step sid TimerElapsed (p, w) =
     (if timer_pending p
      then settle (Rejected Timeout (new_Error ''Authentication timeout''))
             (dispose (p\<lparr>timer_pending := False\<rparr>))
      else p, w)"
  "exchanging p = None \<Longrightarrow> step sid ExchangeDone (p, w) = (p, w)"
  "exchanging p = Some c \<Longrightarrow> exchangeCodeForToken c w = (Inr tok, w1) \<Longrightarrow>
     step sid ExchangeDone (p, w) = (settle (Resolved (Some tok)) (p\<lparr>exchanging := None\<rparr>), w1)"
  "exchanging p = Some c \<Longrightarrow> exchangeCodeForToken c w = (Inl e, w1) \<Longrightarrow>
     step sid ExchangeDone (p, w) = (settle (Rejected ExchangeFailed e) (p\<lparr>exchanging := None\<rparr>), w1)"
  by (simp_all add: step_def)

lemma step_inv: "wait_inv (fst pw) \<Longrightarrow> wait_inv (fst (step sid s pw))"
proof -
  assume a: "wait_inv (fst pw)"
  obtain p w where pw: "pw = (p, w)" by (cases pw)
  show ?thesis
  proof (cases s)
    case (UriDelivered u)
    with a pw show ?thesis
      by (auto simp: step_cases wait_inv_def wait_defs Let_def)
  next
    case CancellationRequested
    with a pw show ?thesis
      by (auto simp: step_cases wait_inv_def wait_defs)
  next
    case TimerElapsed
    with a pw show ?thesis
      by (auto simp: step_cases wait_inv_def wait_defs)
  next
    case ExchangeDone
    show ?thesis
    proof (cases "exchanging p")
      case None
      with a pw ExchangeDone show ?thesis by (simp add: step_cases)
    next
      case (Some c)
      obtain r w1 where ex: "exchangeCodeForToken c w = (r, w1)"
        by (cases "exchangeCodeForToken c w")
      with a pw ExchangeDone Some show ?thesis
        by (cases r) (auto simp: step_cases wait_inv_def wait_defs)
    qed
  qed
qed

lemma deliver_inv: "wait_inv (fst pw) \<Longrightarrow> wait_inv (fst (deliver sid ss pw))"
  by (induction ss arbitrary: pw) (simp_all add: step_inv)

lemma step_settled_outcome:
  "settled (fst pw) = Some out \<Longrightarrow> settled (fst (step sid s pw)) = Some out"
proof -
  assume a: "settled (fst pw) = Some out"
  obtain p w where pw: "pw = (p, w)" by (cases pw)
  show ?thesis
  proof (cases s)
    case ExchangeDone
    show ?thesis
    proof (cases "exchanging p")
      case None
      with a pw ExchangeDone show ?thesis by (simp add: step_cases)
    next
      case (Some c)
      obtain r w1 where ex: "exchangeCodeForToken c w = (r, w1)"
        by (cases "exchangeCodeForToken c w")
      with a pw ExchangeDone Some show ?thesis
        by (cases r) (auto simp: step_cases wait_defs)
    qed
  qed (use a pw in \<open>auto simp: step_cases wait_defs Let_def\<close>)
qed

lemma step_settled_noop:
  "wait_inv (fst pw) \<Longrightarrow> settled (fst pw) \<noteq> None \<Longrightarrow> s \<noteq> ExchangeDone \<Longrightarrow> step sid s pw = pw"
  by (cases pw; cases s) (auto simp: step_cases wait_inv_def wait_defs)

lemma deliver_settled_outcome:
  "settled (fst pw) = Some out \<Longrightarrow> settled (fst (deliver sid ss pw)) = Some out"
  by (induction ss arbitrary: pw) (simp_all add: step_settled_outcome)

lemma waitForAuthCallback_settled:
  "settled (fst pw) = Some out \<Longrightarrow> fst (waitForAuthCallback sid ss pw) = Some out"
  by (cases ss) simp_all

lemma waitForAuthCallback_deliver:
  "fst (waitForAuthCallback sid ss pw) = settled (fst (deliver sid ss pw))"
proof (induction ss arbitrary: pw)
  case Nil
  show ?case by simp
next
  case (Cons s ss)
  show ?case
  proof (cases "settled (fst pw)")
    case None
    then show ?thesis by (simp add: Cons.IH)
  next
    case (Some out)
    then have "settled (fst (deliver sid (s # ss) pw)) = Some out"
      by (rule deliver_settled_outcome)
    with Some show ?thesis by simp
  qed
qed

lemma step_world_fields:
  "keytar (snd (step sid s pw)) = keytar (snd pw)
   \<and> secrets (snd (step sid s pw)) = secrets (snd pw)
   \<and> currentToken (snd (step sid s pw)) = currentToken (snd pw)"
proof -
  obtain p w where pw: "pw = (p, w)" by (cases pw)
  show ?thesis
  proof (cases s)
    case ExchangeDone
    show ?thesis
    proof (cases "exchanging p")
      case None
      with pw ExchangeDone show ?thesis by (simp add: step_cases)
    next
      case (Some c)
      obtain r w1 where ex: "exchangeCodeForToken c w = (r, w1)"
        by (cases "exchangeCodeForToken c w")
      then have "keytar w1 = keytar w \<and> secrets w1 = secrets w \<and> currentToken w1 = currentToken w"
        by (auto simp: exchangeCodeForToken_result Let_def split: option.splits if_splits sum.splits)
      with pw ExchangeDone Some ex show ?thesis
        by (cases r) (simp_all add: step_cases)
    qed
  qed (use pw in \<open>simp_all add: step_cases\<close>)
qed

lemma waitForAuthCallback_world_fields:
  "keytar (snd (waitForAuthCallback sid ss pw)) = keytar (snd pw)
   \<and> secrets (snd (waitForAuthCallback sid ss pw)) = secrets (snd pw)
   \<and> currentToken (snd (waitForAuthCallback sid ss pw)) = currentToken (snd pw)"
  by (induction ss arbitrary: pw) (simp_all add: step_world_fields)

text \<open>While the promise is pending the world changes at the exchange only, which settles it.\<close>

lemma step_pending_world:
  "settled (fst pw) = None \<Longrightarrow> settled (fst (step sid s pw)) = None \<Longrightarrow>
     snd (step sid s pw) = snd pw"
proof -
  assume a: "settled (fst pw) = None" "settled (fst (step sid s pw)) = None"
  obtain p w where pw: "pw = (p, w)" by (cases pw)
  show ?thesis
  proof (cases s)
    case ExchangeDone
    show ?thesis
    proof (cases "exchanging p")
      case None
      with pw ExchangeDone show ?thesis by (simp add: step_cases)
    next
      case (Some c)
      obtain r w1 where ex: "exchangeCodeForToken c w = (r, w1)"
        by (cases "exchangeCodeForToken c w")
      with a pw ExchangeDone Some show ?thesis
        by (cases r) (simp_all add: step_cases wait_defs)
    qed
  qed (use pw in \<open>simp_all add: step_cases\<close>)
qed

lemma step_completes:
  assumes "settled (fst pw) = None"
      and "settled (fst (step sid s pw)) = Some (Resolved (Some tok))"
    shows "\<exists>c. exchanging (fst pw) = Some c
             \<and> exchangeCodeForToken c (snd pw) = (Inr tok, snd (step sid s pw))"
proof -
  obtain p w where pw: "pw = (p, w)" by (cases pw)
  show ?thesis
  proof (cases s)
    case ExchangeDone
    show ?thesis
    proof (cases "exchanging p")
      case None
      with assms pw ExchangeDone show ?thesis by (simp add: step_cases)
    next
      case (Some c)
      obtain r w1 where ex: "exchangeCodeForToken c w = (r, w1)"
        by (cases "exchangeCodeForToken c w")
      with assms pw ExchangeDone Some show ?thesis
        by (cases r) (simp_all add: step_cases wait_defs)
    qed
  next
    case (UriDelivered u)
    with assms pw show ?thesis
      by (auto simp: step_cases wait_defs Let_def split: if_splits)
  next
    case CancellationRequested
    with assms pw show ?thesis by (simp add: step_cases wait_defs)
  next
    case TimerElapsed
    with assms pw show ?thesis by (auto simp: step_cases wait_defs split: if_splits)
  qed
qed

lemma step_exchanging:
  assumes "exchanging (fst pw) = None" and "exchanging (fst (step sid s pw)) = Some c"
  shows "\<exists>u. s = UriDelivered u \<and> query_state u = Some sid \<and> \<not> truthy (query_error u)
            \<and> query_code u = Some c \<and> c \<noteq> []"
proof -
  obtain p w where pw: "pw = (p, w)" by (cases pw)
  show ?thesis
  proof (cases s)
    case (UriDelivered u)
    with assms pw show ?thesis
      by (cases "query_code u")
         (auto simp: step_cases wait_defs Let_def truthy_def split: if_splits)
  next
    case CancellationRequested
    with assms pw show ?thesis by (auto simp: step_cases wait_defs split: if_splits)
  next
    case TimerElapsed
    with assms pw show ?thesis by (auto simp: step_cases wait_defs split: if_splits)
  next
    case ExchangeDone
    with assms pw show ?thesis by (simp add: step_cases)
  qed
qed

lemma waitForAuthCallback_completes:
  assumes "settled (fst pw) = None"
      and "waitForAuthCallback sid ss pw = (Some (Resolved (Some tok)), w')"
      and "wait_inv (fst pw)"
    shows "\<exists>c. exchangeCodeForToken c (snd pw) = (Inr tok, w')
             \<and> (exchanging (fst pw) = Some c
                 \<or> (\<exists>u. UriDelivered u \<in> set ss \<and> query_state u = Some sid
                        \<and> \<not> truthy (query_error u) \<and> query_code u = Some c \<and> c \<noteq> []))"
  using assms
proof (induction ss arbitrary: pw)
  case Nil
  then show ?case by simp
next
  case (Cons s ss)
  let ?n = "step sid s pw"
  from Cons.prems have run: "waitForAuthCallback sid ss ?n = (Some (Resolved (Some tok)), w')"
    by simp
  show ?case
  proof (cases "settled (fst ?n)")
    case None
    have inv: "wait_inv (fst ?n)"
      using Cons.prems(3) by (rule step_inv)
    from Cons.IH [OF None run inv] obtain c where c: "exchangeCodeForToken c (snd ?n) = (Inr tok, w')"
      "exchanging (fst ?n) = Some c
         \<or> (\<exists>u. UriDelivered u \<in> set ss \<and> query_state u = Some sid
                \<and> \<not> truthy (query_error u) \<and> query_code u = Some c \<and> c \<noteq> [])"
      by blast
    have w: "snd ?n = snd pw"
      using Cons.prems(1) None by (rule step_pending_world)
    show ?thesis
    proof (cases "exchanging (fst pw)")
      case (Some c0)
      have "exchanging (fst ?n) = Some c0 \<or> settled (fst ?n) \<noteq> None"
      proof -
        obtain p w0 where pw: "pw = (p, w0)" by (cases pw)
        show ?thesis
        proof (cases s)
          case ExchangeDone
          obtain r w1 where "exchangeCodeForToken c0 w0 = (r, w1)"
            by (cases "exchangeCodeForToken c0 w0")
          with Cons.prems(1) pw Some ExchangeDone show ?thesis
            by (cases r) (simp_all add: step_cases wait_defs)
        next
          case (UriDelivered u)
          with pw Some Cons.prems(3) show ?thesis
            by (auto simp: step_cases wait_defs wait_inv_def Let_def)
        next
          case CancellationRequested
          with pw Some Cons.prems(1) show ?thesis by (simp add: step_cases wait_defs)
        next
          case TimerElapsed
          with pw Some Cons.prems(1) show ?thesis by (simp add: step_cases wait_defs)
        qed
      qed
      with None have e: "exchanging (fst ?n) = Some c0" by simp
      from c e w Some show ?thesis by (cases "c = c0") auto
    next
      case None
      note ex0 = None
      from c(2) show ?thesis
      proof
        assume "exchanging (fst ?n) = Some c"
        from step_exchanging [OF ex0 this] c(1) w show ?thesis by auto
      next
        assume "\<exists>u. UriDelivered u \<in> set ss \<and> query_state u = Some sid
                \<and> \<not> truthy (query_error u) \<and> query_code u = Some c \<and> c \<noteq> []"
        with c(1) w show ?thesis by auto
      qed
    qed
  next
    case (Some out)
    then have "fst (waitForAuthCallback sid ss ?n) = Some out"
      by (rule waitForAuthCallback_settled)
    with run have out: "out = Resolved (Some tok)" by simp
    have w': "w' = snd ?n"
      using run Some by (cases ss) simp_all
    from Some out have "settled (fst ?n) = Some (Resolved (Some tok))" by simp
    from step_completes [OF Cons.prems(1) this] w' show ?thesis by blast
  qed
qed

subsection \<open>What login does with the outcome\<close>

lemma login_unfold:
  assumes "fault w OpenExternal = None"
  defines "w1 \<equiv> w\<lparr>trace := trace w @ [(OpenExternal, clock w, Some (buildAuthUrl (uuid w) w))],
                    clock := clock w + int (latency w OpenExternal)\<rparr>"
  shows "login ss w =
     (case waitForAuthCallback (uuid w) ss (initial_wait, w1) of
        (None, w2) \<Rightarrow> (None, w2)
      | (Some (Rejected k error), w2) \<Rightarrow> (Some (Inl (login_failed error)), w2)
      | (Some (Resolved None), w2) \<Rightarrow>
          (Some (Inl (login_failed (new_Error ''Authentication was cancelled or failed''))), w2)
      | (Some (Resolved (Some token)), w2) \<Rightarrow>
          (case storeToken token w2 of
             (Inl error, w3) \<Rightarrow> (Some (Inl (login_failed error)), w3)
           | (Inr u, w3) \<Rightarrow> (Some (Inr ()), w3\<lparr>currentToken := Some token\<rparr>)))"
  using assms(1)
  by (simp add: login_def openExternal_def external_def invoke_def Let_def w1_def)

lemma login_open_fails:
  "fault w OpenExternal = Some e \<Longrightarrow> fst (login ss w) = Some (Inl (login_failed e))"
  by (simp add: login_def openExternal_def external_def invoke_def Let_def)

lemma login_success:
  assumes "fst (login ss w) = Some (Inr ())"
  defines "w1 \<equiv> w\<lparr>trace := trace w @ [(OpenExternal, clock w, Some (buildAuthUrl (uuid w) w))],
                    clock := clock w + int (latency w OpenExternal)\<rparr>"
  shows "\<exists>token w2 w3. fault w OpenExternal = None
           \<and> waitForAuthCallback (uuid w) ss (initial_wait, w1) = (Some (Resolved (Some token)), w2)
           \<and> storeToken token w2 = (Inr (), w3)
           \<and> snd (login ss w) = w3\<lparr>currentToken := Some token\<rparr>"
proof -
  have op: "fault w OpenExternal = None"
  proof (cases "fault w OpenExternal")
    case (Some e)
    from login_open_fails [OF this, of ss] assms(1) show ?thesis by simp
  qed simp
  obtain r w2 where wr: "waitForAuthCallback (uuid w) ss (initial_wait, w1) = (r, w2)"
    by (cases "waitForAuthCallback (uuid w) ss (initial_wait, w1)")
  show ?thesis
  proof (cases r)
    case None
    with assms(1) wr show ?thesis
      by (simp add: login_unfold [OF op] w1_def [symmetric])
  next
    case (Some out)
    show ?thesis
    proof (cases out)
      case (Rejected k e)
      with assms(1) wr Some show ?thesis
        by (simp add: login_unfold [OF op] w1_def [symmetric])
    next
      case (Resolved t)
      show ?thesis
      proof (cases t)
        case None
        with assms(1) wr Some Resolved show ?thesis
          by (simp add: login_unfold [OF op] w1_def [symmetric])
      next
        case (Some token)
        obtain r3 w3 where st: "storeToken token w2 = (r3, w3)"
          by (cases "storeToken token w2")
        with assms(1) wr \<open>r = Some out\<close> Resolved Some op show ?thesis
          by (cases r3) (simp_all add: login_unfold [OF op] w1_def [symmetric])
      qed
    qed
  qed
qed

lemma login_completed:
  assumes "fault w OpenExternal = None" and "fault w FetchToken = None"
      and "ok (exchange_reply w)" and "json (exchange_reply w) = Inr data"
      and "query_state u = Some (uuid w)" and "\<not> truthy (query_error u)"
      and "query_code u = Some c" and "c \<noteq> []"
  defines "w1 \<equiv> w\<lparr>trace := trace w @ [(OpenExternal, clock w, Some (buildAuthUrl (uuid w) w))],
                    clock := clock w + int (latency w OpenExternal)\<rparr>"
  defines "w2 \<equiv> w1\<lparr>trace := trace w1 @ [(FetchToken, clock w1, Some c)],
                     clock := clock w1 + int (latency w FetchToken)\<rparr>"
  defines "token \<equiv> \<lparr>accessToken = access_token data, refreshToken = refresh_token data,
                      expiresAt = clock w2 + expires_in data * 1000, userId = user_id data\<rparr>"
  shows "login [UriDelivered u, ExchangeDone] w =
           (case storeToken token w2 of
              (Inl error, w3) \<Rightarrow> (Some (Inl (login_failed error)), w3)
            | (Inr v, w3) \<Rightarrow> (Some (Inr ()), w3\<lparr>currentToken := Some token\<rparr>))"
proof -
  let ?p1 = "\<lparr>settled = None, timer_pending = False, handler_registered = False,
              exchanging = Some c\<rparr>"
  have s1: "step (uuid w) (UriDelivered u) (initial_wait, w1) = (?p1, w1)"
    using assms(5-8) by (simp add: step_cases wait_defs initial_wait_def Let_def truthy_def)
  have ex: "exchangeCodeForToken c w1 = (Inr token, w2)"
    using assms(2-4) by (simp add: exchangeCodeForToken_result Let_def w1_def w2_def token_def)
  have s2: "step (uuid w) ExchangeDone (?p1, w1)
              = (?p1\<lparr>exchanging := None, settled := Some (Resolved (Some token))\<rparr>, w2)"
    using step_cases(5) [of ?p1 c w1 token w2 "uuid w"] ex by (simp add: wait_defs)
  have "waitForAuthCallback (uuid w) [UriDelivered u, ExchangeDone] (initial_wait, w1)
          = (Some (Resolved (Some token)), w2)"
    by (simp add: s1 s2) (simp add: initial_wait_def)
  then show ?thesis
    by (simp add: login_unfold [OF assms(1)] w1_def [symmetric])
qed

subsection \<open>The writes of a refresh and of a login\<close>

lemma persists_refresh:
  assumes "currentToken (snd (ensure_loaded w)) = Some tok"
      and "expiresAt tok \<le> Date_now (snd (ensure_loaded w))"
      and "fault w FetchToken = None" and "ok (refresh_reply w)"
      and "json (refresh_reply w) = Inr data"
  defines "built \<equiv> Date_now (snd (ensure_loaded w)) + int (latency w FetchToken)"
  defines "new \<equiv> \<lparr>accessToken = access_token data,
                    refreshToken = (if truthy (refresh_token data) then the (refresh_token data)
                                    else refreshToken tok),
                    expiresAt = built + expires_in data * 1000,
                    userId = user_id data\<rparr>"
  shows "persists (entries_between (snd (ensure_loaded w)) (snd (getValidToken w))) =
           (built, JSON_stringify new)
            # (if fault w KeytarSetPassword = None then []
               else [(built + int (latency w KeytarSetPassword), JSON_stringify new)])"
proof -
  have fr: "fault (snd (ensure_loaded w)) = fault w" "latency (snd (ensure_loaded w)) = latency w"
    using ensure_loaded_frame [of w] by simp_all
  have n: "new = \<lparr>accessToken = access_token data,
                    refreshToken = (if truthy (refresh_token data) then the (refresh_token data)
                                    else refreshToken tok),
                    expiresAt = clock (snd (ensure_loaded w)) + int (latency w FetchToken) + expires_in data * 1000,
                    userId = user_id data\<rparr>"
    by (simp add: new_def built_def Date_now_def)
  show ?thesis
    unfolding getValidToken_refreshed [OF assms(1-5)] n [symmetric]
    by (auto simp: storeToken_result clearToken_result Let_def fr persists_def entries_between_def
          built_def Date_now_def split: option.splits)
qed

lemma persisted_withI:
  assumes "expiresAt new = built + ttl * 1000"
      and "ps = (built, JSON_stringify new)
            # (if fault w KeytarSetPassword = None then []
               else [(built + int (latency w KeytarSetPassword), JSON_stringify new)])"
    shows "persisted_with w built ttl new ps"
  unfolding persisted_with_def assms(2)
  using assms(1) by auto

lemma persists_login:
  assumes "fst (login ss w) = Some (Inr ())"
  defines "built \<equiv> clock w + int (latency w OpenExternal) + int (latency w FetchToken)"
  shows "\<exists>data. json (exchange_reply w) = Inr data
           \<and> persisted_with w built (expires_in data)
               \<lparr>accessToken = access_token data, refreshToken = refresh_token data,
                expiresAt = built + expires_in data * 1000, userId = user_id data\<rparr>
               (persists (entries_between w (snd (login ss w))))"
proof -
  let ?w1 = "w\<lparr>trace := trace w @ [(OpenExternal, clock w, Some (buildAuthUrl (uuid w) w))],
                clock := clock w + int (latency w OpenExternal)\<rparr>"
  from login_success [OF assms(1)] obtain token w2 w3 where
    op: "fault w OpenExternal = None"
    and wr: "waitForAuthCallback (uuid w) ss (initial_wait, ?w1) = (Some (Resolved (Some token)), w2)"
    and st: "storeToken token w2 = (Inr (), w3)"
    and res: "snd (login ss w) = w3\<lparr>currentToken := Some token\<rparr>"
    by blast
  have i: "settled (fst (initial_wait, ?w1)) = None" "wait_inv (fst (initial_wait, ?w1))"
    by (simp_all add: initial_wait_def wait_inv_def)
  from waitForAuthCallback_completes [OF i(1) wr i(2)] obtain c where
    ex: "exchangeCodeForToken c ?w1 = (Inr token, w2)"
    by auto
  from ex obtain data where d: "json (exchange_reply w) = Inr data"
    and tk: "token = \<lparr>accessToken = access_token data, refreshToken = refresh_token data,
                      expiresAt = built + expires_in data * 1000, userId = user_id data\<rparr>"
    and w2: "w2 = ?w1\<lparr>trace := trace ?w1 @ [(FetchToken, clock ?w1, Some c)],
                     clock := clock ?w1 + int (latency w FetchToken)\<rparr>"
    by (auto simp: exchangeCodeForToken_result Let_def built_def
          split: option.splits if_splits sum.splits)
  have p: "persists (entries_between w (snd (login ss w))) =
          (built, JSON_stringify token)
           # (if fault w KeytarSetPassword = None then []
              else [(built + int (latency w KeytarSetPassword), JSON_stringify token)])"
    using st unfolding res w2
    by (auto simp: storeToken_result Let_def persists_def entries_between_def built_def
          split: option.splits)
  have e: "expiresAt token = built + expires_in data * 1000"
    by (simp add: tk)
  have "persisted_with w built (expires_in data) token
          (persists (entries_between w (snd (login ss w))))"
    using e p by (rule persisted_withI)
  with d show ?thesis
    unfolding tk by (intro exI [of _ data]) simp
qed

subsection \<open>The attempt ends\<close>

lemma deliver_append: "deliver sid (xs @ ys) pw = deliver sid ys (deliver sid xs pw)"
  by (induction xs arbitrary: pw) simp_all

lemma timer_then_exchange_settles:
  assumes "wait_inv (fst pw)"
  shows "settled (fst (deliver sid [TimerElapsed, ExchangeDone] pw)) \<noteq> None"
proof -
  obtain p w where pw: "pw = (p, w)" by (cases pw)
  show ?thesis
  proof (cases "settled p")
    case (Some out)
    with pw have "settled (fst pw) = Some out" by simp
    from deliver_settled_outcome [OF this, of sid "[TimerElapsed, ExchangeDone]"]
    show ?thesis by simp
  next
    case None
    show ?thesis
    proof (cases "timer_pending p")
      case True
      with None pw have "settled (fst (step sid TimerElapsed pw))
          = Some (Rejected Timeout (new_Error ''Authentication timeout''))"
        by (simp add: step_cases wait_defs)
      from step_settled_outcome [OF this, of sid ExchangeDone] show ?thesis by simp
    next
      case False
      with assms None pw obtain c where c: "exchanging p = Some c"
        by (auto simp: wait_inv_def)
      obtain r w1 where "exchangeCodeForToken c w = (r, w1)"
        by (cases "exchangeCodeForToken c w")
      with False None pw c show ?thesis
        by (cases r) (simp_all add: step_cases wait_defs)
    qed
  qed
qed

lemma login_returns_iff:
  "fst (login ss w) = None \<longleftrightarrow>
     fault w OpenExternal = None
     \<and> fst (waitForAuthCallback (uuid w) ss
              (initial_wait, snd (openExternal (buildAuthUrl (uuid w) w) w))) = None"
proof (cases "fault w OpenExternal")
  case (Some e)
  from login_open_fails [OF this] show ?thesis using Some by simp
next
  case None
  let ?w1 = "w\<lparr>trace := trace w @ [(OpenExternal, clock w, Some (buildAuthUrl (uuid w) w))],
                clock := clock w + int (latency w OpenExternal)\<rparr>"
  have w1: "snd (openExternal (buildAuthUrl (uuid w) w) w) = ?w1"
    using None by (simp add: openExternal_def external_def invoke_def Let_def)
  obtain r w2 where wr: "waitForAuthCallback (uuid w) ss (initial_wait, ?w1) = (r, w2)"
    by (cases "waitForAuthCallback (uuid w) ss (initial_wait, ?w1)")
  show ?thesis
  proof (cases r)
    case None
    with wr \<open>fault w OpenExternal = None\<close> show ?thesis
      by (simp add: login_unfold w1)
  next
    case (Some out)
    note so = Some
    show ?thesis
    proof (cases out)
      case (Rejected k e)
      with wr so \<open>fault w OpenExternal = None\<close> show ?thesis
        by (simp add: login_unfold w1)
    next
      case (Resolved t)
      show ?thesis
      proof (cases t)
        case None
        with wr so Resolved \<open>fault w OpenExternal = None\<close> show ?thesis
          by (simp add: login_unfold w1)
      next
        case (Some token)
        obtain r3 w3 where "storeToken token w2 = (r3, w3)"
          by (cases "storeToken token w2")
        with wr so Resolved Some \<open>fault w OpenExternal = None\<close> show ?thesis
          by (cases r3) (simp_all add: login_unfold w1)
      qed
    qed
  qed
qed

section \<open>The claims\<close>

subsection \<open>C1: a login attempt settles once\<close>

text \<open>
  Claim C1. Whatever signals arrive in whatever order, the outcome of the attempt is the
  one that the first settling signal gave it: \<^verbatim>\<open>waitForAuthCallback\<close> returns what the
  promise holds after all of them. Once the promise is settled, every further signal leaves
  the outcome as it is, and a redirect, a cancellation and a timer firing leave the whole
  state as it is. While the promise is pending, a cancellation settles it with no token,
  and either the timer is still running, whose firing settles it with the timeout, or an
  exchange is under way, whose return settles it. Hence, once the five minutes have passed
  and the exchange, if one was started, has returned, the promise is settled and
  \<^verbatim>\<open>login()\<close> has returned or thrown: there is an outcome, and never a second one.
\<close>

theorem login_attempt_settles_once:
  fixes sid :: string and ss :: "signal list" and w :: world
  defines "pw \<equiv> deliver sid ss (initial_wait, w)"
  shows "fst (waitForAuthCallback sid ss (initial_wait, w)) = settled (fst pw)
       \<and> (\<forall>out. settled (fst pw) = Some out \<longrightarrow>
            (\<forall>s. settled (fst (step sid s pw)) = Some out)
            \<and> (\<forall>s. s \<noteq> ExchangeDone \<longrightarrow> step sid s pw = pw))
       \<and> (settled (fst pw) = None \<longrightarrow>
            settled (fst (step sid CancellationRequested pw)) = Some (Resolved None)
            \<and> ((timer_pending (fst pw)
                  \<and> settled (fst (step sid TimerElapsed pw))
                      = Some (Rejected Timeout (new_Error ''Authentication timeout'')))
               \<or> (exchanging (fst pw) \<noteq> None
                  \<and> settled (fst (step sid ExchangeDone pw)) \<noteq> None)))
       \<and> fst (waitForAuthCallback sid (ss @ [TimerElapsed, ExchangeDone]) (initial_wait, w)) \<noteq> None
       \<and> fst (login (ss @ [TimerElapsed, ExchangeDone]) w) \<noteq> None"
proof -
  have inv: "wait_inv (fst pw)"
    unfolding pw_def by (rule deliver_inv) (simp add: wait_inv_initial)
  obtain p w' where p: "pw = (p, w')" by (cases pw)
  have pend: "settled (fst (step sid CancellationRequested pw)) = Some (Resolved None)
            \<and> ((timer_pending (fst pw)
                  \<and> settled (fst (step sid TimerElapsed pw))
                      = Some (Rejected Timeout (new_Error ''Authentication timeout'')))
               \<or> (exchanging (fst pw) \<noteq> None
                  \<and> settled (fst (step sid ExchangeDone pw)) \<noteq> None))"
    if none: "settled (fst pw) = None"
  proof -
    have c: "settled (fst (step sid CancellationRequested pw)) = Some (Resolved None)"
      using none p by (simp add: step_cases wait_defs)
    show ?thesis
    proof (cases "timer_pending p")
      case True
      with none p c show ?thesis by (simp add: step_cases wait_defs)
    next
      case False
      with inv none p obtain code where ex: "exchanging p = Some code"
        by (auto simp: wait_inv_def)
      obtain r w1 where "exchangeCodeForToken code w' = (r, w1)"
        by (cases "exchangeCodeForToken code w'")
      with ex none p have "settled (fst (step sid ExchangeDone pw)) \<noteq> None"
        by (cases r) (simp_all add: step_cases wait_defs)
      with c ex p show ?thesis by simp
    qed
  qed
  have live: "fst (waitForAuthCallback sid' (ss @ [TimerElapsed, ExchangeDone]) (initial_wait, v)) \<noteq> None"
    for sid' v
  proof -
    have "wait_inv (fst (deliver sid' ss (initial_wait, v)))"
      by (rule deliver_inv) (simp add: wait_inv_initial)
    from timer_then_exchange_settles [OF this, of sid'] show ?thesis
      unfolding waitForAuthCallback_deliver deliver_append .
  qed
  have ret: "fst (login (ss @ [TimerElapsed, ExchangeDone]) w) \<noteq> None"
    using live by (simp add: login_returns_iff)
  show ?thesis
    using inv pend live ret
    by (auto simp: pw_def [symmetric] waitForAuthCallback_deliver step_settled_outcome
          step_settled_noop simp del: deliver.simps)
qed

text \<open>
  An instance: the redirect arrives, the user cancels while the exchange is under way, and
  the exchange returns afterwards; and the pending state after the redirect alone.
\<close>

theorem login_attempt_settles_once_witness:
  "fst (waitForAuthCallback ''abc123'' [UriDelivered uri_ok, CancellationRequested] (initial_wait, w0))
     = Some (Resolved None)
   \<and> settled (fst (step ''abc123'' ExchangeDone
        (deliver ''abc123'' [UriDelivered uri_ok, CancellationRequested] (initial_wait, w0))))
     = Some (Resolved None)
   \<and> step ''abc123'' TimerElapsed
        (deliver ''abc123'' [UriDelivered uri_ok, CancellationRequested] (initial_wait, w0))
     = deliver ''abc123'' [UriDelivered uri_ok, CancellationRequested] (initial_wait, w0)
   \<and> step ''abc123'' (UriDelivered uri_forged)
        (deliver ''abc123'' [UriDelivered uri_ok, CancellationRequested] (initial_wait, w0))
     = deliver ''abc123'' [UriDelivered uri_ok, CancellationRequested] (initial_wait, w0)
   \<and> settled (fst (deliver ''abc123'' [UriDelivered uri_ok] (initial_wait, w0))) = None
   \<and> settled (fst (step ''abc123'' ExchangeDone
        (deliver ''abc123'' [UriDelivered uri_ok] (initial_wait, w0)))) \<noteq> None"
proof -
  let ?a = "deliver ''abc123'' [UriDelivered uri_ok, CancellationRequested] (initial_wait, w0)"
  let ?b = "deliver ''abc123'' [UriDelivered uri_ok] (initial_wait, w0)"
  have a: "settled (fst ?a) = Some (Resolved None)"
    by (simp add: step_cases wait_defs initial_wait_def uri_ok_def truthy_def)
  have b: "settled (fst ?b) = None" "\<not> timer_pending (fst ?b)"
    by (simp_all add: step_cases wait_defs initial_wait_def uri_ok_def truthy_def)
  have s: "TimerElapsed \<noteq> ExchangeDone" "UriDelivered uri_forged \<noteq> ExchangeDone"
    by simp_all
  from login_attempt_settles_once [of "''abc123''" "[UriDelivered uri_ok, CancellationRequested]" w0] a s
  have 1: "fst (waitForAuthCallback ''abc123'' [UriDelivered uri_ok, CancellationRequested] (initial_wait, w0))
         = Some (Resolved None)"
    "settled (fst (step ''abc123'' ExchangeDone ?a)) = Some (Resolved None)"
    "step ''abc123'' TimerElapsed ?a = ?a"
    "step ''abc123'' (UriDelivered uri_forged) ?a = ?a"
    by metis+
  from login_attempt_settles_once [of "''abc123''" "[UriDelivered uri_ok]" w0] b
  have 2: "settled (fst (step ''abc123'' ExchangeDone ?b)) \<noteq> None"
    by blast
  from 1 2 b show ?thesis by simp
qed

subsection \<open>C2: the state of the redirect\<close>

text \<open>
  Claim C2, as stated, fails where the redirect carries an \<^verbatim>\<open>error\<close> parameter:
  \<^verbatim>\<open>handleUri\<close> looks at the error before it compares the state, so a redirect with
  another state, a code and an error of the provider is rejected with the provider error and
  not with the invalid state.
\<close>

theorem provider_error_precedes_state_check:
  "query_state uri_denied \<noteq> Some ''abc123''
   \<and> query_code uri_denied = Some ''CODE1''
   \<and> fst (waitForAuthCallback ''abc123'' [UriDelivered uri_denied] (initial_wait, w0))
       = Some (Rejected ProviderError (new_Error ''Authentication error: access_denied''))
   \<and> fst (waitForAuthCallback ''abc123'' [UriDelivered uri_denied] (initial_wait, w0))
       \<noteq> Some (Rejected InvalidState (new_Error ''Invalid authentication state''))"
  by (simp add: step_cases wait_defs initial_wait_def uri_denied_def truthy_def)

text \<open>
  Claim C2, amended. A login completes only if one of the redirects delivered to it carried
  the state that was issued. A redirect delivered to the registered handler whose state
  differs from the issued one and which carries no (non-empty) error parameter rejects the
  attempt with the invalid state, whatever its code; one that carries a non-empty error
  parameter rejects it with the provider error, whatever its state. When such a redirect
  without an error is the first signal of the attempt, \<^verbatim>\<open>login()\<close> throws and neither
  store nor the cache changes.
\<close>

theorem callback_state_must_match:
  "(fst (login ss w) = Some (Inr ()) \<longrightarrow>
      (\<exists>u. UriDelivered u \<in> set ss \<and> query_state u = Some (uuid w)))
   \<and> (handler_registered p \<and> settled p = None \<and> query_state u \<noteq> Some sid
        \<and> \<not> truthy (query_error u) \<longrightarrow>
      step sid (UriDelivered u) (p, w) =
        (p\<lparr>timer_pending := False, handler_registered := False,
           settled := Some (Rejected InvalidState (new_Error ''Invalid authentication state''))\<rparr>, w))
   \<and> (handler_registered p \<and> settled p = None \<and> truthy (query_error u) \<longrightarrow>
      step sid (UriDelivered u) (p, w) =
        (p\<lparr>timer_pending := False, handler_registered := False,
           settled := Some (Rejected ProviderError
             (new_Error (''Authentication error: '' @ the (query_error u))))\<rparr>, w))
   \<and> (fault w OpenExternal = None \<and> query_state u \<noteq> Some (uuid w) \<and> \<not> truthy (query_error u) \<longrightarrow>
      fst (login (UriDelivered u # ss) w)
        = Some (Inl (login_failed (new_Error ''Invalid authentication state'')))
      \<and> keytar (snd (login (UriDelivered u # ss) w)) = keytar w
      \<and> secrets (snd (login (UriDelivered u # ss) w)) = secrets w
      \<and> currentToken (snd (login (UriDelivered u # ss) w)) = currentToken w)"
proof -
  have a: "\<exists>u. UriDelivered u \<in> set ss \<and> query_state u = Some (uuid w)"
    if "fst (login ss w) = Some (Inr ())"
  proof -
    from login_success [OF that] obtain token w2 where
      wr: "waitForAuthCallback (uuid w) ss
             (initial_wait, w\<lparr>trace := trace w @ [(OpenExternal, clock w, Some (buildAuthUrl (uuid w) w))],
                    clock := clock w + int (latency w OpenExternal)\<rparr>) = (Some (Resolved (Some token)), w2)"
      by blast
    have "exchanging (fst (initial_wait, w')) = None" "settled (fst (initial_wait, w')) = None"
      "wait_inv (fst (initial_wait, w'))" for w' :: world
      by (simp_all add: initial_wait_def wait_inv_def)
    from waitForAuthCallback_completes [OF this(2) wr this(3)] this(1) show ?thesis
      by auto
  qed
  have d: "fst (login (UriDelivered u # ss) w)
        = Some (Inl (login_failed (new_Error ''Invalid authentication state'')))
      \<and> keytar (snd (login (UriDelivered u # ss) w)) = keytar w
      \<and> secrets (snd (login (UriDelivered u # ss) w)) = secrets w
      \<and> currentToken (snd (login (UriDelivered u # ss) w)) = currentToken w"
    if op: "fault w OpenExternal = None" and "query_state u \<noteq> Some (uuid w)" "\<not> truthy (query_error u)"
  proof -
    let ?w1 = "w\<lparr>trace := trace w @ [(OpenExternal, clock w, Some (buildAuthUrl (uuid w) w))],
                    clock := clock w + int (latency w OpenExternal)\<rparr>"
    have "waitForAuthCallback (uuid w) (UriDelivered u # ss) (initial_wait, ?w1)
            = (Some (Rejected InvalidState (new_Error ''Invalid authentication state'')), ?w1)"
      using that(2,3)
      by (cases ss) (simp_all add: step_cases wait_defs initial_wait_def Let_def)
    then show ?thesis
      by (simp add: login_unfold [OF op])
  qed
  show ?thesis
    using a d by (auto simp: step_cases wait_defs Let_def)
qed

text \<open>
  An instance: the expected redirect completes the login of session \<^verbatim>\<open>abc123\<close>, the
  redirect with state \<^verbatim>\<open>xyz\<close> is rejected and nothing is stored.
\<close>

theorem callback_state_must_match_witness:
  "fst (login [UriDelivered uri_ok, ExchangeDone] w0) = Some (Inr ())
   \<and> (\<exists>u. UriDelivered u \<in> set [UriDelivered uri_ok, ExchangeDone] \<and> query_state u = Some (uuid w0))
   \<and> fst (step ''abc123'' (UriDelivered uri_forged) (initial_wait, w0))
       = initial_wait\<lparr>timer_pending := False, handler_registered := False,
           settled := Some (Rejected InvalidState (new_Error ''Invalid authentication state''))\<rparr>
   \<and> fst (step ''abc123'' (UriDelivered uri_denied) (initial_wait, w0))
       = initial_wait\<lparr>timer_pending := False, handler_registered := False,
           settled := Some (Rejected ProviderError (new_Error ''Authentication error: access_denied''))\<rparr>
   \<and> fst (login [UriDelivered uri_forged, ExchangeDone] w0)
       = Some (Inl (new_Error ''Login failed: Error: Invalid authentication state''))
   \<and> keytar (snd (login [UriDelivered uri_forged, ExchangeDone] w0)) (SERVICE_NAME, TOKEN_KEY) = None"
proof -
  have op: "fault w0 OpenExternal = None" by (simp add: w0_def)
  have ok: "fst (login [UriDelivered uri_ok, ExchangeDone] w0) = Some (Inr ())"
  proof -
    have e: "fault w0 FetchToken = None" "ok (exchange_reply w0)"
      "json (exchange_reply w0) = Inr \<lparr>access_token = ''AT1'', refresh_token = ''RT1'',
          expires_in = 3600, user_id = ''u1''\<rparr>"
      "query_state uri_ok = Some (uuid w0)" "\<not> truthy (query_error uri_ok)"
      "query_code uri_ok = Some ''CODE1''" "''CODE1'' \<noteq> []"
      by (simp_all add: w0_def uri_ok_def truthy_def)
    have f: "fault w0 KeytarSetPassword = None" by (simp add: w0_def)
    show ?thesis
      unfolding login_completed [OF op e]
      by (simp add: storeToken_result Let_def f)
  qed
  have h: "handler_registered initial_wait \<and> settled initial_wait = None
      \<and> query_state uri_forged \<noteq> Some ''abc123'' \<and> \<not> truthy (query_error uri_forged)"
    "handler_registered initial_wait \<and> settled initial_wait = None \<and> truthy (query_error uri_denied)"
    "fault w0 OpenExternal = None \<and> query_state uri_forged \<noteq> Some (uuid w0)
      \<and> \<not> truthy (query_error uri_forged)"
    by (simp_all add: initial_wait_def uri_forged_def uri_denied_def truthy_def w0_def)
  have k: "keytar w0 (SERVICE_NAME, TOKEN_KEY) = None" "the (query_error uri_denied) = ''access_denied''"
    by (simp_all add: w0_def uri_denied_def)
  have m: "login_failed (new_Error ''Invalid authentication state'')
         = new_Error ''Login failed: Error: Invalid authentication state''"
    by (simp add: login_failed_def new_Error_def String_of_def)
  note T1 = callback_state_must_match [of "[UriDelivered uri_ok, ExchangeDone]" w0 initial_wait uri_forged "''abc123''"]
  note T2 = callback_state_must_match [of "[ExchangeDone]" w0 initial_wait uri_denied "''abc123''"]
  note T3 = callback_state_must_match [of "[ExchangeDone]" w0 initial_wait uri_forged "uuid w0"]
  from T1 ok h(1) have 1:
    "\<exists>u. UriDelivered u \<in> set [UriDelivered uri_ok, ExchangeDone] \<and> query_state u = Some (uuid w0)"
    "fst (step ''abc123'' (UriDelivered uri_forged) (initial_wait, w0))
       = initial_wait\<lparr>timer_pending := False, handler_registered := False,
           settled := Some (Rejected InvalidState (new_Error ''Invalid authentication state''))\<rparr>"
    by simp_all
  from T2 h(2) k(2) have 2: "fst (step ''abc123'' (UriDelivered uri_denied) (initial_wait, w0))
       = initial_wait\<lparr>timer_pending := False, handler_registered := False,
           settled := Some (Rejected ProviderError (new_Error ''Authentication error: access_denied''))\<rparr>"
    by simp
  from T3 h(3) k(1) m have 3: "fst (login [UriDelivered uri_forged, ExchangeDone] w0)
       = Some (Inl (new_Error ''Login failed: Error: Invalid authentication state''))
   \<and> keytar (snd (login [UriDelivered uri_forged, ExchangeDone] w0)) (SERVICE_NAME, TOKEN_KEY) = None"
    by simp
  from ok 1 2 3 show ?thesis by blast
qed

subsection \<open>C3: a failed refresh is an implicit logout\<close>

text \<open>
  Claim C3, as stated, fails in its last part where a deletion itself fails:
  \<^verbatim>\<open>clearToken\<close> swallows the exception of \<^verbatim>\<open>keytar.deletePassword\<close>, so after a failed
  refresh \<^verbatim>\<open>getValidToken()\<close> returns \<^verbatim>\<open>null\<close> while the primary store still holds
  the credential.
\<close>

theorem credential_survives_failed_delete:
  "currentToken (snd (ensure_loaded w_delete_fails)) = Some token_A
   \<and> expiresAt token_A \<le> Date_now (snd (ensure_loaded w_delete_fails))
   \<and> fst (refreshToken_call (refreshToken token_A) (snd (ensure_loaded w_delete_fails)))
       = Inl (Thrown ''TypeError'' ''fetch failed'')
   \<and> fst (getValidToken w_delete_fails) = Inr None
   \<and> keytar (snd (getValidToken w_delete_fails)) (SERVICE_NAME, TOKEN_KEY)
       = Some (JSON_stringify token_A)"
proof -
  have f: "fault w_delete_fails KeytarGetPassword = None"
    "fault w_delete_fails FetchToken = Some (Thrown ''TypeError'' ''fetch failed'')"
    "fault w_delete_fails KeytarDeletePassword = Some (new_Error ''keychain is locked'')"
    "keytar w_delete_fails (SERVICE_NAME, TOKEN_KEY) = Some (JSON_stringify token_A)"
    "currentToken w_delete_fails = None" "clock w_delete_fails = 1700003600000"
    by (simp_all add: w_delete_fails_def w_expired_def w0_def refresh_and_delete_fail_def)
  have ld: "loadToken w_delete_fails =
      (Inr (Some token_A),
       w_delete_fails\<lparr>trace := trace w_delete_fails @ [(KeytarGetPassword, clock w_delete_fails, None)],
          clock := clock w_delete_fails + int (latency w_delete_fails KeytarGetPassword)\<rparr>)"
    by (simp add: loadToken_result Let_def f JSON_stringify_truthy parse_token_JSON_stringify)
  let ?w1 = "snd (ensure_loaded w_delete_fails)"
  have w1: "?w1 = w_delete_fails\<lparr>trace := trace w_delete_fails @ [(KeytarGetPassword, clock w_delete_fails, None)],
          clock := clock w_delete_fails + int (latency w_delete_fails KeytarGetPassword),
          currentToken := Some token_A\<rparr>"
    by (simp add: ensure_loaded_result f ld)
  have h1: "currentToken ?w1 = Some token_A"
    by (simp add: w1)
  have h2: "expiresAt token_A \<le> Date_now ?w1"
    by (simp add: w1 Date_now_def f) (simp add: token_A_def)
  obtain w2 where rc: "refreshToken_call (refreshToken token_A) ?w1
      = (Inl (Thrown ''TypeError'' ''fetch failed''), w2)"
    and k2: "keytar w2 = keytar w_delete_fails" and f2: "fault w2 = fault w_delete_fails"
    by (simp add: refreshToken_call_result Let_def w1 f)
  have h2': "expiresAt token_A \<le> clock ?w1"
    using h2 by (simp add: Date_now_def)
  have gv: "getValidToken w_delete_fails = (Inr None, (snd (clearToken w2))\<lparr>currentToken := None\<rparr>)"
    using h1 h2' rc by (simp add: getValidToken_unfold)
  have 4: "fst (getValidToken w_delete_fails) = Inr None"
    "keytar (snd (getValidToken w_delete_fails)) (SERVICE_NAME, TOKEN_KEY) = Some (JSON_stringify token_A)"
    by (simp_all add: gv clearToken_result k2 f2 f)
  from h1 h2 rc 4 show ?thesis by simp
qed

text \<open>
  Claim C3, amended. When \<^verbatim>\<open>getValidToken()\<close> finds the cached token, or the one it has
  just loaded from the stores, expired and the refresh request fails, it returns \<^verbatim>\<open>null\<close>
  and throws nothing, the cache is empty afterwards, so that \<^verbatim>\<open>isAuthenticated()\<close> is
  false, and after the refresh request it calls the deletion of the primary store and then
  that of the fallback store, whatever the first one does; the credential is gone from each
  store whose deletion does not itself fail.
\<close>

theorem getValidToken_refresh_failure:
  assumes "currentToken (snd (ensure_loaded w)) = Some tok"
      and "expiresAt tok \<le> Date_now (snd (ensure_loaded w))"
      and "fst (refreshToken_call (refreshToken tok) (snd (ensure_loaded w))) = Inl e"
    shows "fst (getValidToken w) = Inr None
         \<and> \<not> isAuthenticated (snd (getValidToken w))
         \<and> calls_between w (snd (getValidToken w)) =
             calls_between w (snd (ensure_loaded w)) @ [FetchToken, KeytarDeletePassword, SecretsDelete]
         \<and> (fault w KeytarDeletePassword = None \<longrightarrow>
               keytar (snd (getValidToken w)) (SERVICE_NAME, TOKEN_KEY) = None)
         \<and> (fault w SecretsDelete = None \<longrightarrow> secrets (snd (getValidToken w)) TOKEN_KEY = None)"
proof -
  define w1 where "w1 = snd (ensure_loaded w)"
  obtain xs where xs: "trace w1 = trace w @ xs"
    using ensure_loaded_frame [of w] by (auto simp: w1_def)
  have fr: "fault w1 = fault w" "keytar w1 = keytar w" "secrets w1 = secrets w"
    using ensure_loaded_frame [of w] by (simp_all add: w1_def)
  obtain w2 where rc: "refreshToken_call (refreshToken tok) w1 = (Inl e, w2)"
    using assms(3) by (cases "refreshToken_call (refreshToken tok) w1") (simp add: w1_def)
  have w2: "w2 = w1\<lparr>trace := trace w1 @ [(FetchToken, clock w1, Some (refreshToken tok))],
                     clock := clock w1 + int (latency w1 FetchToken)\<rparr>"
    using rc by (auto simp: refreshToken_call_result Let_def split: option.splits if_splits sum.splits)
  have gv: "getValidToken w = (Inr None, (snd (clearToken w2))\<lparr>currentToken := None\<rparr>)"
    using assms(1,2) rc by (simp add: getValidToken_unfold w1_def [symmetric] Date_now_def)
  show ?thesis
    unfolding w1_def [symmetric]
    by (simp add: gv isAuthenticated_def clearToken_result w2 fr xs calls_between_def)
qed

text \<open>
  An instance: the token of both stores has expired and the network is down.
\<close>

theorem getValidToken_refresh_failure_witness:
  "fst (getValidToken w_expired) = Inr None
   \<and> \<not> isAuthenticated (snd (getValidToken w_expired))
   \<and> keytar (snd (getValidToken w_expired)) (SERVICE_NAME, TOKEN_KEY) = None
   \<and> secrets (snd (getValidToken w_expired)) TOKEN_KEY = None"
proof -
  have ld: "fst (loadToken w_expired) = Inr (Some token_A)"
    by (simp add: loadToken_result w_expired_def w0_def network_down_def JSON_stringify_truthy
          parse_token_JSON_stringify Let_def)
  have h1: "currentToken (snd (ensure_loaded w_expired)) = Some token_A"
    by (simp add: ensure_loaded_result ld) (simp add: w_expired_def w0_def)
  have h2: "expiresAt token_A \<le> Date_now (snd (ensure_loaded w_expired))"
    by (simp add: ensure_loaded_result Date_now_def loadToken_result Let_def)
       (simp add: w_expired_def w0_def network_down_def token_A_def)
  have h3: "fst (refreshToken_call (refreshToken token_A) (snd (ensure_loaded w_expired)))
              = Inl (Thrown ''TypeError'' ''fetch failed'')"
    using ensure_loaded_frame [of w_expired]
    by (simp add: refreshToken_call_result Let_def) (simp add: w_expired_def network_down_def)
  have f: "fault w_expired KeytarDeletePassword = None" "fault w_expired SecretsDelete = None"
    by (simp_all add: w_expired_def network_down_def)
  show ?thesis
    using getValidToken_refresh_failure [OF h1 h2 h3] f by simp
qed

subsection \<open>C4: cancellation and timeout at the caller\<close>

text \<open>
  Claim C4, as stated, fails: \<^verbatim>\<open>login()\<close> throws both when the user cancels and when
  the timer fires. The promise of \<^verbatim>\<open>waitForAuthCallback\<close> resolves with \<^verbatim>\<open>null\<close> on
  cancellation, and \<^verbatim>\<open>login()\<close> turns that into an error of its own.
\<close>

theorem login_raises_on_cancel_and_timeout:
  "fst (login [CancellationRequested] w0)
     = Some (Inl (Thrown ''Error'' ''Login failed: Error: Authentication was cancelled or failed''))
   \<and> fst (login [TimerElapsed] w0)
     = Some (Inl (Thrown ''Error'' ''Login failed: Error: Authentication timeout''))"
proof -
  have op: "fault w0 OpenExternal = None" by (simp add: w0_def)
  show ?thesis
    by (simp add: login_unfold [OF op] step_cases wait_defs initial_wait_def login_failed_def
          new_Error_def String_of_def)
qed

text \<open>
  Claim C4, amended. For every login attempt that ends in user cancellation or in the
  timeout, \<^verbatim>\<open>login()\<close> throws an error whose message starts with \<^verbatim>\<open>Login failed\<close> and
  names the cause (cancelled or failed, respectively timeout), which differs from a
  successful login, which returns normally; neither store nor the cache changes.
\<close>

theorem login_cancel_or_timeout_raises:
  assumes "fault w OpenExternal = None"
      and "fst (waitForAuthCallback (uuid w) ss
                 (initial_wait, snd (openExternal (buildAuthUrl (uuid w) w) w))) = Some out"
      and "out = Resolved None \<or> out = Rejected Timeout (new_Error ''Authentication timeout'')"
    shows "fst (login ss w) =
             Some (Inl (new_Error
               (if out = Resolved None
                then ''Login failed: Error: Authentication was cancelled or failed''
                else ''Login failed: Error: Authentication timeout'')))
         \<and> fst (login ss w) \<noteq> Some (Inr ())
         \<and> keytar (snd (login ss w)) = keytar w
         \<and> secrets (snd (login ss w)) = secrets w
         \<and> currentToken (snd (login ss w)) = currentToken w"
proof -
  let ?w1 = "w\<lparr>trace := trace w @ [(OpenExternal, clock w, Some (buildAuthUrl (uuid w) w))],
                clock := clock w + int (latency w OpenExternal)\<rparr>"
  have w1: "snd (openExternal (buildAuthUrl (uuid w) w) w) = ?w1"
    using assms(1) by (simp add: openExternal_def external_def invoke_def Let_def)
  obtain w2 where wr: "waitForAuthCallback (uuid w) ss (initial_wait, ?w1) = (Some out, w2)"
    using assms(2) unfolding w1
    by (cases "waitForAuthCallback (uuid w) ss (initial_wait, ?w1)") simp
  have fr: "keytar w2 = keytar w \<and> secrets w2 = secrets w \<and> currentToken w2 = currentToken w"
    using waitForAuthCallback_world_fields [of "uuid w" ss "(initial_wait, ?w1)"] wr by simp
  have m: "login_failed (new_Error ''Authentication was cancelled or failed'')
         = new_Error ''Login failed: Error: Authentication was cancelled or failed''"
    "login_failed (new_Error ''Authentication timeout'')
         = new_Error ''Login failed: Error: Authentication timeout''"
    by (simp_all add: login_failed_def new_Error_def String_of_def)
  from assms(3) show ?thesis
  proof
    assume "out = Resolved None"
    with wr fr m show ?thesis by (simp add: login_unfold [OF assms(1)])
  next
    assume "out = Rejected Timeout (new_Error ''Authentication timeout'')"
    with wr fr m show ?thesis by (simp add: login_unfold [OF assms(1)])
  qed
qed

text \<open>
  An instance: a cancellation while the exchange is under way, and a timer that fires
  before the redirect.
\<close>

theorem login_cancel_or_timeout_raises_witness:
  "fst (login [UriDelivered uri_ok, CancellationRequested, ExchangeDone] w0)
     = Some (Inl (new_Error ''Login failed: Error: Authentication was cancelled or failed''))
   \<and> fst (login [TimerElapsed, UriDelivered uri_ok] w0)
     = Some (Inl (new_Error ''Login failed: Error: Authentication timeout''))
   \<and> keytar (snd (login [TimerElapsed, UriDelivered uri_ok] w0)) (SERVICE_NAME, TOKEN_KEY) = None
   \<and> secrets (snd (login [TimerElapsed, UriDelivered uri_ok] w0)) TOKEN_KEY = None
   \<and> currentToken (snd (login [TimerElapsed, UriDelivered uri_ok] w0)) = None"
proof -
  have op: "fault w0 OpenExternal = None" by (simp add: w0_def)
  have a: "fst (waitForAuthCallback (uuid w0) [UriDelivered uri_ok, CancellationRequested, ExchangeDone]
                 (initial_wait, snd (openExternal (buildAuthUrl (uuid w0) w0) w0))) = Some (Resolved None)"
    by (simp add: step_cases wait_defs initial_wait_def uri_ok_def truthy_def Let_def)
       (simp add: w0_def)
  have b: "fst (waitForAuthCallback (uuid w0) [TimerElapsed, UriDelivered uri_ok]
                 (initial_wait, snd (openExternal (buildAuthUrl (uuid w0) w0) w0)))
             = Some (Rejected Timeout (new_Error ''Authentication timeout''))"
    by (simp add: step_cases wait_defs initial_wait_def)
  have k: "keytar w0 (SERVICE_NAME, TOKEN_KEY) = None" "secrets w0 TOKEN_KEY = None"
    "currentToken w0 = None"
    by (simp_all add: w0_def)
  from login_cancel_or_timeout_raises [OF op a] login_cancel_or_timeout_raises [OF op b] k
  show ?thesis by simp
qed

subsection \<open>C5: reading the credential\<close>

text \<open>
  Claim C5 at a failing input: the primary store throws on every operation and the fallback
  store holds the token. \<^verbatim>\<open>loadToken\<close> has one \<^verbatim>\<open>try\<close> around both reads, so the
  exception of the primary read ends it with \<^verbatim>\<open>null\<close>, and the fallback store, whose
  read would succeed, is not called. (\<^verbatim>\<open>storeToken\<close> writes to the fallback store exactly
  when the primary store throws, and \<^verbatim>\<open>clearToken\<close> guards each store on its own.)
\<close>

theorem loadToken_skips_fallback_when_primary_throws:
  "secrets w_keytar_down TOKEN_KEY = Some (JSON_stringify token_A)
   \<and> fault w_keytar_down SecretsGet = None
   \<and> fst (loadToken w_keytar_down) = Inr None
   \<and> calls_between w_keytar_down (snd (loadToken w_keytar_down)) = [KeytarGetPassword]"
  by (simp add: loadToken_result w_keytar_down_def keytar_unavailable_def calls_between_def Let_def)

subsection \<open>C6: the refresh token across a refresh\<close>

text \<open>
  Claim C6, as stated, fails where the response carries the empty string as
  \<^verbatim>\<open>refresh_token\<close>: \<^verbatim>\<open>data.refresh_token || refreshToken\<close> keeps the old value then, and
  the value of the server is not used.
\<close>

theorem empty_refresh_token_not_used:
  "json (refresh_reply w_empty_rt) =
      Inr \<lparr>access_token = ''AT2'', refresh_token = Some [], expires_in = 60, user_id = ''u1''\<rparr>
   \<and> fst (getValidToken w_empty_rt) = Inr (Some ''AT2'')
   \<and> currentToken (snd (getValidToken w_empty_rt))
       = Some \<lparr>accessToken = ''AT2'', refreshToken = ''RT1'', expiresAt = 1700003660000, userId = ''u1''\<rparr>
   \<and> keytar (snd (getValidToken w_empty_rt)) (SERVICE_NAME, TOKEN_KEY)
       = Some (JSON_stringify
           \<lparr>accessToken = ''AT2'', refreshToken = ''RT1'', expiresAt = 1700003660000, userId = ''u1''\<rparr>)"
proof -
  let ?data = "\<lparr>access_token = ''AT2'', refresh_token = Some ([] :: string), expires_in = 60,
                  user_id = ''u1''\<rparr>"
  have el: "snd (ensure_loaded w_empty_rt) = w_empty_rt"
    by (simp add: ensure_loaded_result w_empty_rt_def)
  have h1: "currentToken (snd (ensure_loaded w_empty_rt)) = Some token_A"
    by (simp add: el) (simp add: w_empty_rt_def)
  have h2: "expiresAt token_A \<le> Date_now (snd (ensure_loaded w_empty_rt))"
    by (simp add: el Date_now_def token_A_def) (simp add: w_empty_rt_def)
  have h3: "fault w_empty_rt FetchToken = None" "ok (refresh_reply w_empty_rt)"
    "json (refresh_reply w_empty_rt) = Inr ?data"
    by (simp_all add: w_empty_rt_def w0_def)
  have f: "fault w_empty_rt KeytarSetPassword = None" "latency w_empty_rt FetchToken = 0"
    "latency w_empty_rt KeytarSetPassword = 0" "clock w_empty_rt = 1700003600000"
    by (simp_all add: w_empty_rt_def w0_def)
  show ?thesis
    unfolding getValidToken_refreshed [OF h1 h2 h3] el
    by (simp add: storeToken_result Let_def f h3 truthy_def token_A_def)
qed

text \<open>
  Claim C6, amended. After a successful refresh whose token can be stored, the token that is
  cached and persisted (in the primary store, or in the fallback store when the primary
  write fails) has the new \<^verbatim>\<open>access_token\<close>, the new expiry (the time at which the response
  was read plus \<^verbatim>\<open>expires_in\<close> seconds) and the \<^verbatim>\<open>user_id\<close> of the response; its refresh
  token is the previous one when the response omits \<^verbatim>\<open>refresh_token\<close> or carries the empty
  string, and the value of the server otherwise. \<^verbatim>\<open>getValidToken()\<close> returns the new
  access token.
\<close>

theorem refresh_carries_refresh_token_forward:
  assumes "currentToken (snd (ensure_loaded w)) = Some tok"
      and "expiresAt tok \<le> Date_now (snd (ensure_loaded w))"
      and "fault w FetchToken = None" and "ok (refresh_reply w)"
      and "json (refresh_reply w) = Inr data"
      and "fault w KeytarSetPassword = None \<or> fault w SecretsStore = None"
  defines "new \<equiv> \<lparr>accessToken = access_token data,
                    refreshToken = (case refresh_token data of
                                      None \<Rightarrow> refreshToken tok
                                    | Some r \<Rightarrow> if r = [] then refreshToken tok else r),
                    expiresAt = Date_now (snd (ensure_loaded w)) + int (latency w FetchToken)
                                  + expires_in data * 1000,
                    userId = user_id data\<rparr>"
  shows "fst (getValidToken w) = Inr (Some (access_token data))
       \<and> currentToken (snd (getValidToken w)) = Some new
       \<and> (fault w KeytarSetPassword = None \<longrightarrow>
            keytar (snd (getValidToken w)) (SERVICE_NAME, TOKEN_KEY) = Some (JSON_stringify new))
       \<and> (fault w KeytarSetPassword \<noteq> None \<longrightarrow>
            secrets (snd (getValidToken w)) TOKEN_KEY = Some (JSON_stringify new))"
proof -
  have fr: "fault (snd (ensure_loaded w)) = fault w" "latency (snd (ensure_loaded w)) = latency w"
    using ensure_loaded_frame [of w] by simp_all
  have n: "new = \<lparr>accessToken = access_token data,
                    refreshToken = (if truthy (refresh_token data) then the (refresh_token data)
                                    else refreshToken tok),
                    expiresAt = clock (snd (ensure_loaded w)) + int (latency w FetchToken) + expires_in data * 1000,
                    userId = user_id data\<rparr>"
    by (simp add: new_def truthy_def Date_now_def split: option.splits)
  have a: "accessToken new = access_token data"
    by (simp add: new_def)
  show ?thesis
    using assms(6)
    unfolding getValidToken_refreshed [OF assms(1-5)] n [symmetric]
    by (auto simp: storeToken_result Let_def fr a split: option.splits)
qed

text \<open>
  An instance, the scenario of the specification: the response is
  \<^verbatim>\<open>{access_token: "AT2", expires_in: 60}\<close> and the stored token keeps \<^verbatim>\<open>RT1\<close>.
\<close>

theorem refresh_carries_refresh_token_forward_witness:
  "fst (getValidToken w_cached) = Inr (Some ''AT2'')
   \<and> currentToken (snd (getValidToken w_cached))
       = Some \<lparr>accessToken = ''AT2'', refreshToken = ''RT1'', expiresAt = 1700003660000, userId = ''u1''\<rparr>
   \<and> keytar (snd (getValidToken w_cached)) (SERVICE_NAME, TOKEN_KEY)
       = Some (JSON_stringify
           \<lparr>accessToken = ''AT2'', refreshToken = ''RT1'', expiresAt = 1700003660000, userId = ''u1''\<rparr>)"
proof -
  let ?data = "\<lparr>access_token = ''AT2'', refresh_token = None :: string option, expires_in = 60,
                  user_id = ''u1''\<rparr>"
  have el: "snd (ensure_loaded w_cached) = w_cached"
    by (simp add: ensure_loaded_result w_cached_def)
  have h1: "currentToken (snd (ensure_loaded w_cached)) = Some token_A"
    by (simp add: el) (simp add: w_cached_def)
  have h2: "expiresAt token_A \<le> Date_now (snd (ensure_loaded w_cached))"
    by (simp add: el Date_now_def) (simp add: w_cached_def token_A_def)
  have h3: "fault w_cached FetchToken = None" "ok (refresh_reply w_cached)"
    "json (refresh_reply w_cached) = Inr ?data"
    "fault w_cached KeytarSetPassword = None \<or> fault w_cached SecretsStore = None"
    by (simp_all add: w_cached_def w0_def)
  have f: "fault w_cached KeytarSetPassword = None" "latency w_cached FetchToken = 0"
    "clock w_cached = 1700003600000"
    by (simp_all add: w_cached_def w0_def)
  show ?thesis
    using refresh_carries_refresh_token_forward [OF h1 h2 h3] f
    by (simp add: el Date_now_def token_A_def)
qed

subsection \<open>C7: writing the credential\<close>

text \<open>
  Claim C7, as stated, fails in its last part where the primary store still holds an older
  token and refuses the write: the new token goes to the fallback store, and the next read,
  on which no call fails, returns the older token of the primary store.
\<close>

theorem fallback_token_shadowed_by_primary:
  "fault w_stale KeytarSetPassword \<noteq> None
   \<and> fst (storeToken token_B w_stale) = Inr ()
   \<and> secrets (snd (storeToken token_B w_stale)) TOKEN_KEY = Some (JSON_stringify token_B)
   \<and> fault (snd (storeToken token_B w_stale)) KeytarGetPassword = None
   \<and> fault (snd (storeToken token_B w_stale)) SecretsGet = None
   \<and> fst (loadToken (snd (storeToken token_B w_stale))) = Inr (Some token_A)
   \<and> token_A \<noteq> token_B"
  by (simp add: storeToken_result loadToken_result w_stale_def w0_def keytar_read_only_def Let_def
        JSON_stringify_truthy parse_token_JSON_stringify new_Error_def token_A_def token_B_def)

text \<open>
  Claim C7, amended. Every \<^verbatim>\<open>storeToken\<close> calls the primary store first. When that write
  succeeds nothing else is called and the fallback store is left as it is; when it fails the
  fallback store is called and the primary store is left as it is: no write stores the token
  in both. A token written to the fallback store is returned by a later \<^verbatim>\<open>loadToken\<close>
  that finds the fallback entry unchanged, provided that the primary read succeeds and yields
  no value and that the fallback read succeeds; \<^verbatim>\<open>getValidToken()\<close> with an empty cache
  then returns its access token as long as it has not expired when the reads are done.
\<close>

theorem storeToken_primary_else_fallback:
  "(fault w KeytarSetPassword = None \<longrightarrow>
      fst (storeToken tok w) = Inr ()
      \<and> calls_between w (snd (storeToken tok w)) = [KeytarSetPassword]
      \<and> keytar (snd (storeToken tok w)) (SERVICE_NAME, TOKEN_KEY) = Some (JSON_stringify tok)
      \<and> secrets (snd (storeToken tok w)) = secrets w)
   \<and> (fault w KeytarSetPassword \<noteq> None \<longrightarrow>
      calls_between w (snd (storeToken tok w)) = [KeytarSetPassword, SecretsStore]
      \<and> keytar (snd (storeToken tok w)) = keytar w
      \<and> (fault w SecretsStore = None \<longrightarrow>
            fst (storeToken tok w) = Inr ()
            \<and> secrets (snd (storeToken tok w)) TOKEN_KEY = Some (JSON_stringify tok)
            \<and> (\<forall>w'. secrets w' TOKEN_KEY = secrets (snd (storeToken tok w)) TOKEN_KEY
                      \<and> fault w' KeytarGetPassword = None
                      \<and> \<not> truthy (keytar w' (SERVICE_NAME, TOKEN_KEY))
                      \<and> fault w' SecretsGet = None
                   \<longrightarrow> fst (loadToken w') = Inr (Some tok)
                       \<and> (currentToken w' = None
                            \<and> clock w' + int (latency w' KeytarGetPassword)
                                 + int (latency w' SecretsGet) < expiresAt tok
                          \<longrightarrow> fst (getValidToken w') = Inr (Some (accessToken tok))))))"
proof -
  have use: "fst (getValidToken w') = Inr (Some (accessToken tok))"
    if "secrets w' TOKEN_KEY = Some (JSON_stringify tok)" "fault w' KeytarGetPassword = None"
      "\<not> truthy (keytar w' (SERVICE_NAME, TOKEN_KEY))" "fault w' SecretsGet = None"
      "currentToken w' = None"
      "clock w' + int (latency w' KeytarGetPassword) + int (latency w' SecretsGet) < expiresAt tok"
    for w'
  proof -
    have ld: "loadToken w' =
        (Inr (Some tok),
         w'\<lparr>trace := trace w' @ [(KeytarGetPassword, clock w', None),
                (SecretsGet, clock w' + int (latency w' KeytarGetPassword), None)],
            clock := clock w' + int (latency w' KeytarGetPassword) + int (latency w' SecretsGet)\<rparr>)"
      using that(1-4)
      by (simp add: loadToken_result Let_def JSON_stringify_truthy parse_token_JSON_stringify)
    show ?thesis
      using that(5,6)
      by (simp add: getValidToken_unfold ensure_loaded_result ld Let_def)
  qed
  show ?thesis
    using use
    by (auto simp: storeToken_result loadToken_result calls_between_def Let_def
        JSON_stringify_truthy parse_token_JSON_stringify split: option.splits)
qed

text \<open>
  An instance: one write with a working primary store, and one with a primary store that
  is empty and cannot be written, followed by a read.
\<close>

theorem storeToken_primary_else_fallback_witness:
  "fst (storeToken token_A w0) = Inr ()
   \<and> calls_between w0 (snd (storeToken token_A w0)) = [KeytarSetPassword]
   \<and> keytar (snd (storeToken token_A w0)) (SERVICE_NAME, TOKEN_KEY) = Some (JSON_stringify token_A)
   \<and> secrets (snd (storeToken token_A w0)) TOKEN_KEY = None
   \<and> fst (storeToken token_A w_locked) = Inr ()
   \<and> calls_between w_locked (snd (storeToken token_A w_locked)) = [KeytarSetPassword, SecretsStore]
   \<and> keytar (snd (storeToken token_A w_locked)) (SERVICE_NAME, TOKEN_KEY) = None
   \<and> secrets (snd (storeToken token_A w_locked)) TOKEN_KEY = Some (JSON_stringify token_A)
   \<and> fst (loadToken (snd (storeToken token_A w_locked))) = Inr (Some token_A)
   \<and> fst (getValidToken (snd (storeToken token_A w_locked))) = Inr (Some ''AT1'')"
proof -
  let ?w' = "snd (storeToken token_A w_locked)"
  have a: "fault w0 KeytarSetPassword = None"
    by (simp add: w0_def)
  have b: "fault w_locked KeytarSetPassword \<noteq> None" "fault w_locked SecretsStore = None"
    by (simp_all add: w_locked_def keytar_read_only_def)
  have c: "fault ?w' KeytarGetPassword = None"
    "\<not> truthy (keytar ?w' (SERVICE_NAME, TOKEN_KEY))"
    "fault ?w' SecretsGet = None"
    "currentToken ?w' = None"
    "clock ?w' + int (latency ?w' KeytarGetPassword) + int (latency ?w' SecretsGet)
       < expiresAt token_A"
    by (simp_all add: storeToken_result w_locked_def w0_def keytar_read_only_def Let_def truthy_def
          token_A_def)
  have k: "keytar w_locked (SERVICE_NAME, TOKEN_KEY) = None" "secrets w0 TOKEN_KEY = None"
    "accessToken token_A = ''AT1''"
    by (simp_all add: w_locked_def w0_def token_A_def)
  from storeToken_primary_else_fallback [of w0 token_A] a
  have 1: "fst (storeToken token_A w0) = Inr ()
      \<and> calls_between w0 (snd (storeToken token_A w0)) = [KeytarSetPassword]
      \<and> keytar (snd (storeToken token_A w0)) (SERVICE_NAME, TOKEN_KEY) = Some (JSON_stringify token_A)
      \<and> secrets (snd (storeToken token_A w0)) = secrets w0"
    by blast
  from storeToken_primary_else_fallback [of w_locked token_A] b
  have 2: "calls_between w_locked ?w' = [KeytarSetPassword, SecretsStore]
      \<and> keytar ?w' = keytar w_locked
      \<and> fst (storeToken token_A w_locked) = Inr ()
      \<and> secrets ?w' TOKEN_KEY = Some (JSON_stringify token_A)"
    and 3: "\<forall>w'. secrets w' TOKEN_KEY = secrets ?w' TOKEN_KEY
                      \<and> fault w' KeytarGetPassword = None
                      \<and> \<not> truthy (keytar w' (SERVICE_NAME, TOKEN_KEY))
                      \<and> fault w' SecretsGet = None
                   \<longrightarrow> fst (loadToken w') = Inr (Some token_A)
                       \<and> (currentToken w' = None
                            \<and> clock w' + int (latency w' KeytarGetPassword)
                                 + int (latency w' SecretsGet) < expiresAt token_A
                          \<longrightarrow> fst (getValidToken w') = Inr (Some (accessToken token_A)))"
    by blast+
  from 3 [rule_format, of ?w'] c
  have 4: "fst (loadToken ?w') = Inr (Some token_A)"
    "fst (getValidToken ?w') = Inr (Some (accessToken token_A))"
    by simp_all
  from 1 2 4 k show ?thesis by simp
qed

subsection \<open>C8: logout clears both stores\<close>

text \<open>
  Claim C8. Every \<^verbatim>\<open>logout()\<close> returns normally and calls the deletion of the primary
  store and then that of the fallback store, after the revoke request when there is a cached
  token: neither a failing revoke request nor a failing deletion changes the list of calls,
  and no exception reaches the caller. The entry of a store is gone whenever the deletion of
  that store does not itself fail, and the cache is empty.
\<close>

theorem logout_clears_both_backends:
  "fst (logout w) = Inr ()
   \<and> calls_between w (snd (logout w)) =
       (if currentToken w = None then [] else [FetchRevoke]) @ [KeytarDeletePassword, SecretsDelete]
   \<and> (fault w KeytarDeletePassword = None \<longrightarrow> keytar (snd (logout w)) (SERVICE_NAME, TOKEN_KEY) = None)
   \<and> (fault w SecretsDelete = None \<longrightarrow> secrets (snd (logout w)) TOKEN_KEY = None)
   \<and> currentToken (snd (logout w)) = None"
  by (auto simp: logout_def revokeToken_def fetch_revoke_def clearToken_result async_defs
        calls_between_def Let_def split: option.splits)

text \<open>
  An instance: a cached token, a token in both stores and the network down, so that the
  revoke request fails.
\<close>

theorem logout_clears_both_backends_witness:
  "fst (logout (w_expired\<lparr>currentToken := Some token_A\<rparr>)) = Inr ()
   \<and> calls_between (w_expired\<lparr>currentToken := Some token_A\<rparr>)
        (snd (logout (w_expired\<lparr>currentToken := Some token_A\<rparr>)))
       = [FetchRevoke, KeytarDeletePassword, SecretsDelete]
   \<and> keytar (snd (logout (w_expired\<lparr>currentToken := Some token_A\<rparr>))) (SERVICE_NAME, TOKEN_KEY) = None
   \<and> secrets (snd (logout (w_expired\<lparr>currentToken := Some token_A\<rparr>))) TOKEN_KEY = None"
  using logout_clears_both_backends [of "w_expired\<lparr>currentToken := Some token_A\<rparr>"]
  by (simp add: w_expired_def network_down_def)

subsection \<open>C9: the expiry at the time of the write\<close>

text \<open>
  Claim C9, as stated, fails: the code does not look at \<^verbatim>\<open>expires_in\<close>. A refresh
  response with \<^verbatim>\<open>expires_in = 0\<close> is stored with an expiry equal to the time of the
  write, which is not strictly later.
\<close>

theorem token_persisted_with_expiry_not_in_future:
  "fst (getValidToken w_zero_ttl) = Inr (Some ''AT2'')
   \<and> persists (entries_between w_zero_ttl (snd (getValidToken w_zero_ttl)))
     = [(1700003600000, JSON_stringify
          \<lparr>accessToken = ''AT2'', refreshToken = ''RT2'', expiresAt = 1700003600000, userId = ''u1''\<rparr>)]
   \<and> keytar (snd (getValidToken w_zero_ttl)) (SERVICE_NAME, TOKEN_KEY)
     = Some (JSON_stringify
          \<lparr>accessToken = ''AT2'', refreshToken = ''RT2'', expiresAt = 1700003600000, userId = ''u1''\<rparr>)
   \<and> \<not> (1700003600000 < expiresAt
          \<lparr>accessToken = ''AT2'', refreshToken = ''RT2'', expiresAt = 1700003600000, userId = ''u1''\<rparr>)"
proof -
  let ?d = "\<lparr>access_token = ''AT2'', refresh_token = Some ''RT2'', expires_in = 0,
             user_id = ''u1''\<rparr>"
  have el: "snd (ensure_loaded w_zero_ttl) = w_zero_ttl"
    by (simp add: ensure_loaded_result w_zero_ttl_def)
  have h: "currentToken (snd (ensure_loaded w_zero_ttl)) = Some token_A"
    "expiresAt token_A \<le> Date_now (snd (ensure_loaded w_zero_ttl))"
    "fault w_zero_ttl FetchToken = None" "ok (refresh_reply w_zero_ttl)"
    "json (refresh_reply w_zero_ttl) = Inr ?d"
    unfolding el by (simp_all add: w_zero_ttl_def w0_def Date_now_def token_A_def)
  have f: "fault w_zero_ttl KeytarSetPassword = None" "latency w_zero_ttl FetchToken = 0"
    "latency w_zero_ttl KeytarSetPassword = 0"
    "Date_now w_zero_ttl = 1700003600000" "clock w_zero_ttl = 1700003600000"
    by (simp_all add: w_zero_ttl_def w0_def Date_now_def)
  have 1: "persists (entries_between w_zero_ttl (snd (getValidToken w_zero_ttl)))
     = [(1700003600000, JSON_stringify
          \<lparr>accessToken = ''AT2'', refreshToken = ''RT2'', expiresAt = 1700003600000, userId = ''u1''\<rparr>)]"
    using persists_refresh [OF h] by (simp add: el f truthy_def)
  have 2: "fst (getValidToken w_zero_ttl) = Inr (Some ''AT2'')
    \<and> keytar (snd (getValidToken w_zero_ttl)) (SERVICE_NAME, TOKEN_KEY)
     = Some (JSON_stringify
          \<lparr>accessToken = ''AT2'', refreshToken = ''RT2'', expiresAt = 1700003600000, userId = ''u1''\<rparr>)"
    unfolding getValidToken_refreshed [OF h] el
    by (simp add: storeToken_result Let_def f truthy_def)
  from 1 2 show ?thesis by simp
qed

text \<open>
  Claim C9, amended. The token persisted after a successful refresh, and the one persisted
  by a successful login after the code exchange, has as expiry the time at which it was
  built plus \<^verbatim>\<open>expires_in * 1000\<close>. The primary write starts at that time and the fallback
  write after the failed primary write; the expiry is strictly later than the start of a
  write exactly when fewer than \<^verbatim>\<open>expires_in * 1000\<close> milliseconds have passed since the
  token was built, hence for the primary write exactly when \<^verbatim>\<open>expires_in\<close> is positive.
\<close>

theorem persisted_expiry:
  "(currentToken (snd (ensure_loaded w)) = Some tok
      \<and> expiresAt tok \<le> Date_now (snd (ensure_loaded w))
      \<and> fault w FetchToken = None \<and> ok (refresh_reply w) \<and> json (refresh_reply w) = Inr data
    \<longrightarrow> persisted_with w (Date_now (snd (ensure_loaded w)) + int (latency w FetchToken))
          (expires_in data)
          \<lparr>accessToken = access_token data,
           refreshToken = (if truthy (refresh_token data) then the (refresh_token data)
                           else refreshToken tok),
           expiresAt = Date_now (snd (ensure_loaded w)) + int (latency w FetchToken)
                         + expires_in data * 1000,
           userId = user_id data\<rparr>
          (persists (entries_between (snd (ensure_loaded w)) (snd (getValidToken w)))))
   \<and> (fst (login ss w) = Some (Inr ())
    \<longrightarrow> (\<exists>data'. json (exchange_reply w) = Inr data'
          \<and> persisted_with w (clock w + int (latency w OpenExternal) + int (latency w FetchToken))
              (expires_in data')
              \<lparr>accessToken = access_token data', refreshToken = refresh_token data',
               expiresAt = clock w + int (latency w OpenExternal) + int (latency w FetchToken)
                             + expires_in data' * 1000,
               userId = user_id data'\<rparr>
              (persists (entries_between w (snd (login ss w))))))"
proof (rule conjI; rule impI)
  assume "currentToken (snd (ensure_loaded w)) = Some tok
      \<and> expiresAt tok \<le> Date_now (snd (ensure_loaded w))
      \<and> fault w FetchToken = None \<and> ok (refresh_reply w) \<and> json (refresh_reply w) = Inr data"
  then have h: "currentToken (snd (ensure_loaded w)) = Some tok"
    "expiresAt tok \<le> Date_now (snd (ensure_loaded w))"
    "fault w FetchToken = None" "ok (refresh_reply w)" "json (refresh_reply w) = Inr data"
    by simp_all
  show "persisted_with w (Date_now (snd (ensure_loaded w)) + int (latency w FetchToken))
          (expires_in data)
          \<lparr>accessToken = access_token data,
           refreshToken = (if truthy (refresh_token data) then the (refresh_token data)
                           else refreshToken tok),
           expiresAt = Date_now (snd (ensure_loaded w)) + int (latency w FetchToken)
                         + expires_in data * 1000,
           userId = user_id data\<rparr>
          (persists (entries_between (snd (ensure_loaded w)) (snd (getValidToken w))))"
    apply (rule persisted_withI)
     apply simp
    apply (rule persists_refresh [OF h])
    done
next
  assume "fst (login ss w) = Some (Inr ())"
  then show "\<exists>data'. json (exchange_reply w) = Inr data'
          \<and> persisted_with w (clock w + int (latency w OpenExternal) + int (latency w FetchToken))
              (expires_in data')
              \<lparr>accessToken = access_token data', refreshToken = refresh_token data',
               expiresAt = clock w + int (latency w OpenExternal) + int (latency w FetchToken)
                             + expires_in data' * 1000,
               userId = user_id data'\<rparr>
              (persists (entries_between w (snd (login ss w))))"
    by (rule persists_login)
qed

text \<open>
  An instance: the refresh with \<^verbatim>\<open>expires_in = 60\<close> and the login with
  \<^verbatim>\<open>expires_in = 3600\<close>, each with one write to the primary store.
\<close>

theorem persisted_expiry_witness:
  "persists (entries_between w_cached (snd (getValidToken w_cached)))
     = [(1700003600000, JSON_stringify
          \<lparr>accessToken = ''AT2'', refreshToken = ''RT1'', expiresAt = 1700003660000, userId = ''u1''\<rparr>)]
   \<and> persists (entries_between w0 (snd (login [UriDelivered uri_ok, ExchangeDone] w0)))
     = [(1700000000000, JSON_stringify
          \<lparr>accessToken = ''AT1'', refreshToken = ''RT1'', expiresAt = 1700003600000, userId = ''u1''\<rparr>)]"
proof -
  let ?d = "\<lparr>access_token = ''AT2'', refresh_token = None :: string option, expires_in = 60,
                  user_id = ''u1''\<rparr>"
  let ?e = "\<lparr>access_token = ''AT1'', refresh_token = ''RT1'', expires_in = 3600, user_id = ''u1''\<rparr>"
  have el: "snd (ensure_loaded w_cached) = w_cached"
    by (simp add: ensure_loaded_result w_cached_def)
  have h: "currentToken (snd (ensure_loaded w_cached)) = Some token_A
      \<and> expiresAt token_A \<le> Date_now (snd (ensure_loaded w_cached))
      \<and> fault w_cached FetchToken = None \<and> ok (refresh_reply w_cached)
      \<and> json (refresh_reply w_cached) = Inr ?d"
    unfolding el by (simp add: w_cached_def w0_def Date_now_def token_A_def)
  have f: "fault w_cached KeytarSetPassword = None" "latency w_cached FetchToken = 0"
    "Date_now w_cached = 1700003600000" "refreshToken token_A = ''RT1''"
    by (simp_all add: w_cached_def w0_def Date_now_def token_A_def)
  have op: "fault w0 OpenExternal = None" by (simp add: w0_def)
  have ok: "fst (login [UriDelivered uri_ok, ExchangeDone] w0) = Some (Inr ())"
  proof -
    have e: "fault w0 FetchToken = None" "ok (exchange_reply w0)" "json (exchange_reply w0) = Inr ?e"
      "query_state uri_ok = Some (uuid w0)" "\<not> truthy (query_error uri_ok)"
      "query_code uri_ok = Some ''CODE1''" "''CODE1'' \<noteq> []"
      by (simp_all add: w0_def uri_ok_def truthy_def)
    have k: "fault w0 KeytarSetPassword = None" by (simp add: w0_def)
    show ?thesis
      unfolding login_completed [OF op e]
      by (simp add: storeToken_result Let_def k)
  qed
  have g: "fault w0 KeytarSetPassword = None" "latency w0 FetchToken = 0"
    "latency w0 OpenExternal = 0" "clock w0 = 1700000000000" "json (exchange_reply w0) = Inr ?e"
    by (simp_all add: w0_def)
  note T = persisted_expiry [of w_cached token_A ?d "[UriDelivered uri_ok, ExchangeDone]"]
  note U = persisted_expiry [of w0 token_A ?d "[UriDelivered uri_ok, ExchangeDone]"]
  from T h have 1: "persists (entries_between w_cached (snd (getValidToken w_cached)))
     = [(1700003600000, JSON_stringify
          \<lparr>accessToken = ''AT2'', refreshToken = ''RT1'', expiresAt = 1700003660000, userId = ''u1''\<rparr>)]"
    by (simp add: persisted_with_def el f truthy_def)
  from U ok g have 2: "persists (entries_between w0 (snd (login [UriDelivered uri_ok, ExchangeDone] w0)))
     = [(1700000000000, JSON_stringify
          \<lparr>accessToken = ''AT1'', refreshToken = ''RT1'', expiresAt = 1700003600000, userId = ''u1''\<rparr>)]"
    by (auto simp: persisted_with_def)
  from 1 2 show ?thesis by simp
qed

subsection \<open>C10: what was stored is what is loaded\<close>

text \<open>
  Claim C10, as stated, fails where the token was stored in the fallback store while the
  primary store holds another one: \<^verbatim>\<open>storeToken\<close> succeeds, nothing is cleared or
  overwritten afterwards, and \<^verbatim>\<open>loadToken\<close> returns the token of the primary store.
\<close>

theorem stored_token_not_loaded_back:
  "fst (storeToken token_A w_stale_B) = Inr ()
   \<and> entries_between w_stale_B (snd (storeToken token_A w_stale_B)) =
       [(KeytarSetPassword, 1700000000000, Some (JSON_stringify token_A)),
        (SecretsStore, 1700000000000, Some (JSON_stringify token_A))]
   \<and> fst (loadToken (snd (storeToken token_A w_stale_B))) \<noteq> Inr (Some token_A)"
  by (simp add: storeToken_result loadToken_result w_stale_B_def w0_def keytar_read_only_def Let_def
        JSON_stringify_truthy parse_token_JSON_stringify new_Error_def token_A_def token_B_def
        entries_between_def)

text \<open>
  Claim C10, amended. Serialising and parsing is the identity on tokens (numbers being
  integers). If \<^verbatim>\<open>storeToken(t)\<close> succeeds, a later \<^verbatim>\<open>loadToken()\<close> whose primary read
  does not fail returns a token equal to \<open>t\<close> in all four fields in two cases: \<open>t\<close> went
  to the primary store and that entry is unchanged; or \<open>t\<close> went to the fallback store,
  that entry is unchanged, the primary store yields no value and the fallback read does not
  fail.
\<close>

theorem store_then_load_roundtrip:
  assumes "fst (storeToken t w) = Inr ()"
      and "fault w' KeytarGetPassword = None"
      and "fault w KeytarSetPassword = None \<longrightarrow>
             keytar w' (SERVICE_NAME, TOKEN_KEY) = keytar (snd (storeToken t w)) (SERVICE_NAME, TOKEN_KEY)"
      and "fault w KeytarSetPassword \<noteq> None \<longrightarrow>
             \<not> truthy (keytar w' (SERVICE_NAME, TOKEN_KEY)) \<and> fault w' SecretsGet = None
             \<and> secrets w' TOKEN_KEY = secrets (snd (storeToken t w)) TOKEN_KEY"
    shows "fst (loadToken w') = Inr (Some t) \<and> JSON_parse (JSON_stringify t) = Inr t"
proof (cases "fault w KeytarSetPassword")
  case None
  with assms(3) have "keytar w' (SERVICE_NAME, TOKEN_KEY) = Some (JSON_stringify t)"
    by (simp add: storeToken_result Let_def)
  with assms(2) show ?thesis
    by (simp add: loadToken_result Let_def JSON_stringify_truthy parse_token_JSON_stringify
          JSON_parse_def)
next
  case (Some e)
  with assms(1) have ok2: "fault w SecretsStore = None"
    by (auto simp: storeToken_result Let_def split: option.splits)
  with Some assms(4) have "secrets w' TOKEN_KEY = Some (JSON_stringify t)"
    "\<not> truthy (keytar w' (SERVICE_NAME, TOKEN_KEY))" "fault w' SecretsGet = None"
    by (simp_all add: storeToken_result Let_def)
  with assms(2) show ?thesis
    by (simp add: loadToken_result Let_def JSON_stringify_truthy parse_token_JSON_stringify
          JSON_parse_def)
qed

text \<open>
  An instance: a token stored and loaded through the primary store, and one through the
  fallback store.
\<close>

theorem store_then_load_roundtrip_witness:
  "fst (loadToken (snd (storeToken token_B w0))) = Inr (Some token_B)
   \<and> fst (loadToken (snd (storeToken token_B w_locked))) = Inr (Some token_B)
   \<and> JSON_parse (JSON_stringify token_B) = Inr token_B"
proof -
  have a: "fst (storeToken token_B w0) = Inr ()"
    "fault (snd (storeToken token_B w0)) KeytarGetPassword = None"
    "fault w0 KeytarSetPassword = None"
    by (simp_all add: storeToken_result w0_def Let_def)
  have b: "fst (storeToken token_B w_locked) = Inr ()"
    "fault (snd (storeToken token_B w_locked)) KeytarGetPassword = None"
    "fault w_locked KeytarSetPassword \<noteq> None"
    "\<not> truthy (keytar (snd (storeToken token_B w_locked)) (SERVICE_NAME, TOKEN_KEY))"
    "fault (snd (storeToken token_B w_locked)) SecretsGet = None"
    by (simp_all add: storeToken_result w_locked_def w0_def keytar_read_only_def Let_def truthy_def)
  from store_then_load_roundtrip [of token_B w0 "snd (storeToken token_B w0)"] a
  have 1: "fst (loadToken (snd (storeToken token_B w0))) = Inr (Some token_B)
           \<and> JSON_parse (JSON_stringify token_B) = Inr token_B" by simp
  from store_then_load_roundtrip [of token_B w_locked "snd (storeToken token_B w_locked)"] b
  have 2: "fst (loadToken (snd (storeToken token_B w_locked))) = Inr (Some token_B)" by simp
  from 1 2 show ?thesis by simp
qed

end
